theory Spec2Isabelle
  imports Main
begin

text \<open>
  A voice interview application. The chat route answers one turn of the conversation with
  a streamed completion and runs the \<open>generate_interview\<close> tool when the model asks for
  it; the call component owns the session: it opens the transcription channel, forwards
  audio slices, turns final transcripts into user messages after 3000 ms of silence,
  speaks the assistant's replies, and hands the transcript over when the call ends. Both
  are embedded as functions on explicit states, with their collaborators (the completion
  engine, the browser, the chat hook) as parameters or events.
\<close>

section \<open>Strings\<close>

text \<open>
  JavaScript strings are modelled as \<^typ>\<open>string\<close>, one \<^typ>\<open>char\<close> per code unit
  below 256. \<open>String.prototype.trim\<close> removes white space and line terminators from both
  ends; below 256 these are TAB, LF, VT, FF, CR, SPACE and NBSP.
\<close>

definition is_ws :: "char \<Rightarrow> bool" where
  "is_ws c = (c \<in> set [CHR 0x09, CHR 0x0A, CHR 0x0B, CHR 0x0C, CHR 0x0D, CHR 0x20, CHR 0xA0])"

definition trim :: "string \<Rightarrow> string" where
  "trim s = rev (dropWhile is_ws (rev (dropWhile is_ws s)))"

section \<open>The chat route: \<open>POST\<close> of \<open>src/unnamed/part_000\<close>\<close>

subsection \<open>Data\<close>

text \<open>JSON values, as far as the route looks into them.\<close>

datatype jsvalue =
    JUndefined
  | JNull
  | JBool bool
  | JNumber int
  | JString string
  | JObject "(string \<times> jsvalue) list"

text \<open>A tool call recorded in the history: \<open>tc.function.name\<close> is what the route reads.\<close>

record tool_call_record =
  tcr_id :: string
  tcr_name :: string
  tcr_arguments :: string

text \<open>A message of the request body. \<open>tool_calls\<close> is \<open>None\<close> when the field is absent.\<close>

record message =
  role :: string
  content :: string
  tool_calls :: "tool_call_record list option"

text \<open>
  A tool call of the payload handed to \<open>experimental_onToolCall\<close>: the callback reads
  \<open>toolCall.func || toolCall.function\<close>, then \<open>fn.name\<close> and \<open>fn.arguments\<close>.
\<close>

record fn_call =
  fn_name :: string
  fn_arguments :: jsvalue

record tool_call =
  tc_id :: string
  tc_func :: "fn_call option"
  tc_function :: "fn_call option"

record tool_call_payload =
  tools :: "tool_call list option"

text \<open>The argument of \<open>generateInterview\<close> and what it returns (\<open>result.success\<close>).\<close>

record gen_params =
  gp_role :: jsvalue
  gp_level :: jsvalue
  gp_techstack :: jsvalue
  gp_type :: jsvalue
  gp_amount :: jsvalue
  gp_userid :: jsvalue

datatype gen_result = GenSuccess string | GenFailure

text \<open>The argument of \<open>appendToolCallMessage\<close>.\<close>

record tool_call_message =
  tool_call_id :: string
  function_name :: string
  tool_call_result :: string

text \<open>
  A call of \<open>openai.chat.completions.create\<close>: the message list and the \<open>tools\<close> field
  (\<open>None\<close> for \<open>undefined\<close>; a tool interface is listed by its name).
\<close>

record chat_request =
  req_messages :: "message list"
  req_tools :: "string list option"

text \<open>
  What a completion streams: text, or a tool-call payload, or the call fails. The
  completion service is outside the repository; it can emit a tool call only for a tool
  interface it was given, which \<open>create\<close> below writes out: a request without \<open>tools\<close>
  is answered by \<open>plain\<close>, which has no tool-call answer.
\<close>

datatype completion = Text string | ToolCalls tool_call_payload | ApiError

record engine =
  plain :: "message list \<Rightarrow> string option"
  with_tools :: "message list \<Rightarrow> completion"

definition create :: "engine \<Rightarrow> chat_request \<Rightarrow> completion" where
  "create eng req =
     (case req_tools req of
        None \<Rightarrow> (case plain eng (req_messages req) of None \<Rightarrow> ApiError | Some s \<Rightarrow> Text s)
      | Some ts \<Rightarrow> with_tools eng (req_messages req))"

text \<open>
  The fields of the request body the route reads (\<open>messages\<close>, \<open>userId\<close>, \<open>type\<close>) are
  \<open>body_messages\<close>, \<open>body_userId\<close> and \<open>body_type\<close> below. The collaborators of the route
  that are not part of it: the completion engine,
  \<open>generateInterview\<close>, \<open>JSON.parse\<close> (\<open>None\<close> when it throws) and the stream wrapper's
  \<open>appendToolCallMessage\<close>. The system prompt is a text built from \<open>type\<close>, \<open>userName\<close>
  and \<open>questions\<close>; no branch of the route depends on its wording.
\<close>

record env =
  eng :: engine
  generateInterview :: "gen_params \<Rightarrow> gen_result"
  JSON_parse :: "string \<Rightarrow> jsvalue option"
  appendToolCallMessage :: "tool_call_message \<Rightarrow> message list"
  systemPrompt :: string

datatype agent_type = Generate | Interview

record post_body =
  body_messages :: "message list"
  body_userId :: jsvalue
  body_type :: agent_type

subsection \<open>The idempotency guard\<close>

definition hasToolCall :: "message list \<Rightarrow> bool" where
  "hasToolCall ms =
     list_ex (\<lambda>m. role m = ''assistant'' \<and>
        (case tool_calls m of
           None \<Rightarrow> False
         | Some tcs \<Rightarrow> list_ex (\<lambda>tc. tcr_name tc = ''generate_interview'') tcs)) ms"

definition shouldEnableTools :: "agent_type \<Rightarrow> message list \<Rightarrow> bool" where
  "shouldEnableTools ty ms = (ty = Generate \<and> \<not> hasToolCall ms)"

definition tools_offered :: "string list" where
  "tools_offered = [''generate_interview'']"

definition system_message :: "env \<Rightarrow> message" where
  "system_message e = \<lparr>role = ''system'', content = systemPrompt e, tool_calls = None\<rparr>"

definition first_request :: "env \<Rightarrow> post_body \<Rightarrow> chat_request" where
  "first_request e b =
     \<lparr>req_messages = system_message e # body_messages b,
      req_tools = (if shouldEnableTools (body_type b) (body_messages b) then Some tools_offered else None)\<rparr>"

subsection \<open>The tool-call callback\<close>

text \<open>
  What the callback hands back to the stream wrapper: nothing (\<open>undefined\<close>), a string,
  the follow-up completion, or an exception that leaves the callback.
\<close>

datatype callback_return =
    ReturnUndefined
  | ReturnString string
  | ReturnResponse completion
  | Thrown

text \<open>
  The trace of one run of the callback: the calls of \<open>generateInterview\<close>, the calls of
  \<open>appendToolCallMessage\<close>, the follow-up requests issued, and what is returned.
\<close>

record callback_run =
  cb_executed :: "gen_params list"
  cb_appended :: "tool_call_message list"
  cb_requests :: "chat_request list"
  cb_return :: callback_return

text \<open>
  \<open>params = fn.arguments\<close> when it is an object, \<open>JSON.parse(fn.arguments)\<close> otherwise;
  \<open>JSON.parse\<close> reads a non-string through its string form (\<open>undefined\<close> does not
  parse). \<open>None\<close> is the \<open>catch\<close> branch.
\<close>

definition parse_arguments :: "env \<Rightarrow> jsvalue \<Rightarrow> jsvalue option" where
  "parse_arguments e a =
     (case a of
        JObject kvs \<Rightarrow> Some (JObject kvs)
      | JString s \<Rightarrow> JSON_parse e s
      | JUndefined \<Rightarrow> None
      | v \<Rightarrow> Some v)"

text \<open>Reading a property for the destructuring \<open>const { role, ... } = params\<close>.\<close>

definition get_prop :: "jsvalue \<Rightarrow> string \<Rightarrow> jsvalue" where
  "get_prop v k =
     (case v of
        JObject kvs \<Rightarrow> (case map_of kvs k of None \<Rightarrow> JUndefined | Some x \<Rightarrow> x)
      | _ \<Rightarrow> JUndefined)"

definition fn_of :: "tool_call \<Rightarrow> fn_call option" where
  "fn_of tc = (case tc_func tc of Some f \<Rightarrow> Some f | None \<Rightarrow> tc_function tc)"

definition invoke_tool :: "env \<Rightarrow> post_body \<Rightarrow> tool_call \<Rightarrow> fn_call \<Rightarrow> callback_run" where
  "invoke_tool e b tc f =
     (case parse_arguments e (fn_arguments f) of
        None \<Rightarrow>
          \<lparr>cb_executed = [], cb_appended = [], cb_requests = [],
           cb_return = ReturnString ''Error: Invalid tool arguments generated by AI.''\<rparr>
      | Some params \<Rightarrow>
          if params = JNull \<or> params = JUndefined then
            \<lparr>cb_executed = [], cb_appended = [], cb_requests = [], cb_return = Thrown\<rparr>
          else
            let args = \<lparr>gp_role = get_prop params ''role'',
                        gp_level = get_prop params ''level'',
                        gp_techstack = get_prop params ''techstack'',
                        gp_type = get_prop params ''focus'',
                        gp_amount = get_prop params ''amount'',
                        gp_userid = body_userId b\<rparr>;
                result = generateInterview e args;
                output = (case result of
                            GenSuccess i \<Rightarrow> ''Interview generated successfully.''
                          | GenFailure \<Rightarrow> ''Error generating interview.'');
                outcome_message = \<lparr>tool_call_id = tc_id tc, function_name = fn_name f,
                                   tool_call_result = output\<rparr>;
                newMessages = appendToolCallMessage e outcome_message;
                followup = \<lparr>req_messages = system_message e # body_messages b @ newMessages,
                            req_tools = None\<rparr>;
                newResponse = create (eng e) followup
            in \<lparr>cb_executed = [args], cb_appended = [outcome_message], cb_requests = [followup],
                cb_return = (if newResponse = ApiError then Thrown
                             else ReturnResponse newResponse)\<rparr>)"

text \<open>The \<open>for\<close> loop over \<open>toolCallPayload.tools\<close>: it returns at the first
  \<open>generate_interview\<close> call.\<close>

fun tool_loop :: "env \<Rightarrow> post_body \<Rightarrow> tool_call list \<Rightarrow> callback_run" where
  "tool_loop e b [] =
     \<lparr>cb_executed = [], cb_appended = [], cb_requests = [], cb_return = ReturnUndefined\<rparr>"
| "tool_loop e b (tc # rest) =
     (case fn_of tc of
        None \<Rightarrow> tool_loop e b rest
      | Some f \<Rightarrow>
          if fn_name f = ''generate_interview'' then invoke_tool e b tc f
          else tool_loop e b rest)"

definition experimental_onToolCall :: "env \<Rightarrow> post_body \<Rightarrow> tool_call_payload \<Rightarrow> callback_run" where
  "experimental_onToolCall e b payload =
     (case tools payload of
        None \<Rightarrow>
          \<lparr>cb_executed = [], cb_appended = [], cb_requests = [], cb_return = ReturnUndefined\<rparr>
      | Some tcs \<Rightarrow> tool_loop e b tcs)"

subsection \<open>The handler\<close>

text \<open>
  What the client receives: the streamed text, the tool-call payload itself (the wrapper
  forwards it when the callback gives it nothing to stream), or the 500 response of the
  outer \<open>catch\<close>.
\<close>

datatype outcome = Streamed string | Forwarded tool_call_payload | Status500

record post_run =
  requests :: "chat_request list"
  executed :: "gen_params list"
  appended :: "tool_call_message list"
  result :: outcome

definition POST :: "env \<Rightarrow> post_body \<Rightarrow> post_run" where
  "POST e b =
     (let req = first_request e b in
      case create (eng e) req of
        ApiError \<Rightarrow> \<lparr>requests = [req], executed = [], appended = [], result = Status500\<rparr>
      | Text s \<Rightarrow> \<lparr>requests = [req], executed = [], appended = [], result = Streamed s\<rparr>
      | ToolCalls payload \<Rightarrow>
          let run = experimental_onToolCall e b payload in
          \<lparr>requests = req # cb_requests run,
           executed = cb_executed run,
           appended = cb_appended run,
           result = (case cb_return run of
                       ReturnString s \<Rightarrow> Streamed s
                     | ReturnResponse (Text s) \<Rightarrow> Streamed s
                     | _ \<Rightarrow> Forwarded payload)\<rparr>)"

section \<open>The call component: \<open>src/components/Agent.tsx\<close>\<close>

subsection \<open>State\<close>

datatype CallStatus = INACTIVE | CONNECTING | ACTIVE | FINISHED

text \<open>
  \<open>callStatus\<close> and \<open>messages\<close> are constants of one render of the component. A function
  created during a render (\<open>handleCall\<close>, \<open>handleDisconnect\<close>, and the socket handlers
  \<open>handleCall\<close> installs) reads the values of that render, whatever the state is when it
  runs. A \<open>render\<close> holds the two values such closures read. The refs
  (\<open>socketRef\<close>, \<open>accumulatedTextRef\<close>, ...) are shared cells and always current.
\<close>

record render =
  r_callStatus :: CallStatus
  r_messages :: "message list"

text \<open>The props the handlers read.\<close>

record props =
  type :: agent_type
  interviewId :: string

text \<open>A WebSocket: the render its handlers were created in, its \<open>readyState\<close>, and the
  \<open>audio_data\<close> of the frames sent on it (\<open>None\<close> for a frame without the field).\<close>

datatype ready_state = WS_CONNECTING | OPEN | CLOSING | CLOSED

record socket =
  ws_render :: render
  readyState :: ready_state
  ws_sent :: "string option list"

text \<open>An audio element: whether it is paused, and the clip it plays (the text the clip
  was synthesised from stands for the object URL).\<close>

record audio =
  paused :: bool
  src :: "string option"

record recorder =
  rec_socket :: nat
  recording :: bool

text \<open>What the component asks of its collaborators, in order.\<close>

datatype effect =
    Alert string
  | FetchToken
  | NewWebSocket string
  | GetUserMedia nat
  | FetchTTS string string
  | CreateFeedback "(string \<times> string) list"
  | RouterPush string

text \<open>
  The state of the component and of the objects it owns. \<open>messages\<close> and \<open>isLoading\<close>
  are the values of the chat hook. Sockets, audio elements, recorders and microphone
  streams are numbered in order of creation; a ref holds such a number. \<open>timers\<close> are
  the pending timeouts (identifier, time due), \<open>token_fetches\<close> and \<open>tts_fetches\<close> the
  requests issued so far (the render of the \<open>handleCall\<close> that waits for the token; the
  text to synthesise).
\<close>

record agent =
  callStatus :: CallStatus
  isSpeaking :: bool
  lastMessage :: string
  messages :: "message list"
  isLoading :: bool
  socketRef :: "nat option"
  recorderRef :: "nat option"
  streamRef :: "nat option"
  silenceTimeoutRef :: "nat option"
  accumulatedTextRef :: string
  lastSpokenMessageRef :: string
  audioRef :: "nat option"
  sockets :: "socket list"
  audios :: "audio list"
  recorders :: "recorder list"
  streams :: "bool list"
  timers :: "(nat \<times> nat) list"
  timer_count :: nat
  token_fetches :: "render list"
  tts_fetches :: "string list"
  effects :: "effect list"

definition initial :: agent where
  "initial =
     \<lparr>callStatus = INACTIVE, isSpeaking = False, lastMessage = [], messages = [],
      isLoading = False, socketRef = None, recorderRef = None, streamRef = None,
      silenceTimeoutRef = None, accumulatedTextRef = [], lastSpokenMessageRef = [],
      audioRef = None, sockets = [], audios = [], recorders = [], streams = [],
      timers = [], timer_count = 0, token_fetches = [], tts_fetches = [], effects = []\<rparr>"

definition render_of :: "agent \<Rightarrow> render" where
  "render_of st = \<lparr>r_callStatus = callStatus st, r_messages = messages st\<rparr>"

definition emit :: "effect \<Rightarrow> agent \<Rightarrow> agent" where
  "emit x st = st\<lparr>effects := effects st @ [x]\<rparr>"

subsection \<open>The chat hook and the timers\<close>

text \<open>\<open>append\<close> of the chat hook adds the message to the conversation and starts the
  request for the reply.\<close>

definition user_message :: "string \<Rightarrow> message" where
  "user_message t = \<lparr>role = ''user'', content = t, tool_calls = None\<rparr>"

definition append_chat :: "message \<Rightarrow> agent \<Rightarrow> agent" where
  "append_chat m st = st\<lparr>messages := messages st @ [m], isLoading := True\<rparr>"

text \<open>\<open>setTimeout\<close> at time \<open>now\<close> returns a fresh positive identifier; \<open>clearTimeout\<close>
  cancels a pending timeout and does nothing for any other identifier.\<close>

definition setTimeout :: "nat \<Rightarrow> nat \<Rightarrow> agent \<Rightarrow> nat \<times> agent" where
  "setTimeout now delay st =
     (let i = timer_count st + 1
      in (i, st\<lparr>timers := timers st @ [(i, now + delay)], timer_count := i\<rparr>))"

definition clearTimeout :: "nat \<Rightarrow> agent \<Rightarrow> agent" where
  "clearTimeout i st = st\<lparr>timers := filter (\<lambda>(j, d). j \<noteq> i) (timers st)\<rparr>"

subsection \<open>\<open>playTTS\<close> and the effect that triggers it\<close>

datatype tts_response =
    TTSRejected string
  | TTSNotOk string string
  | TTSOk "string option"

definition pause_current :: "agent \<Rightarrow> agent" where
  "pause_current st =
     (case audioRef st of
        None \<Rightarrow> st
      | Some a \<Rightarrow> st\<lparr>audios := (audios st)[a := (audios st ! a)\<lparr>paused := True\<rparr>]\<rparr>)"

text \<open>\<open>playTTS\<close> up to its first \<open>await\<close>: the guard, \<open>isSpeaking\<close>, the pause of the
  audio element \<open>audioRef\<close> holds now, and the request.\<close>

definition playTTS :: "props \<Rightarrow> string \<Rightarrow> agent \<Rightarrow> agent" where
  "playTTS p t st =
     (if t = [] \<or> trim t = [] then st
      else
        let st1 = pause_current (st\<lparr>isSpeaking := True\<rparr>)
        in emit (FetchTTS t (if type p = Generate then ''Danielle'' else ''Matthew''))
             (st1\<lparr>tts_fetches := tts_fetches st1 @ [t]\<rparr>))"

text \<open>\<open>playTTS\<close> from the response of request \<open>k\<close> on: the request failed
  (\<open>TTSRejected\<close>, the \<open>catch\<close>), the response is not ok, or a new audio element is
  created, stored in \<open>audioRef\<close> and played (\<open>TTSOk (Some err)\<close>: \<open>audio.play()\<close>
  rejects).\<close>

definition playTTS_resume :: "nat \<Rightarrow> tts_response \<Rightarrow> agent \<Rightarrow> agent" where
  "playTTS_resume k res st =
     (case res of
        TTSRejected err \<Rightarrow> emit (Alert (''TTS Exception: '' @ err)) (st\<lparr>isSpeaking := False\<rparr>)
      | TTSNotOk status errorText \<Rightarrow>
          emit (Alert (''TTS Error: '' @ status @ '' - '' @ errorText)) (st\<lparr>isSpeaking := False\<rparr>)
      | TTSOk play \<Rightarrow>
          let a = length (audios st);
              st1 = st\<lparr>audios := audios st @ [\<lparr>paused = True, src = Some (tts_fetches st ! k)\<rparr>],
                      audioRef := Some a\<rparr>
          in (case play of
                None \<Rightarrow> st1\<lparr>audios := (audios st1)[a := (audios st1 ! a)\<lparr>paused := False\<rparr>]\<rparr>
              | Some err \<Rightarrow> emit (Alert (''TTS Exception: '' @ err)) (st1\<lparr>isSpeaking := False\<rparr>)))"

definition audio_onended :: "nat \<Rightarrow> agent \<Rightarrow> agent" where
  "audio_onended a st = st\<lparr>isSpeaking := False\<rparr>"

definition audio_onerror :: "nat \<Rightarrow> string \<Rightarrow> agent \<Rightarrow> agent" where
  "audio_onerror a code st =
     emit (Alert (''Audio playback failed. Code: '' @ code @ ''. Check console for details.''))
       (st\<lparr>isSpeaking := False\<rparr>)"

text \<open>The effect on \<open>[messages, isLoading, playTTS]\<close>.\<close>

definition tts_effect :: "props \<Rightarrow> agent \<Rightarrow> agent" where
  "tts_effect p st =
     (if messages st \<noteq> [] then
        let l = last (messages st) in
        if role l = ''assistant'' \<and> content l \<noteq> [] then
          let st1 = st\<lparr>lastMessage := content l\<rparr> in
          if \<not> isLoading st \<and> content l \<noteq> lastSpokenMessageRef st
          then playTTS p (content l) (st1\<lparr>lastSpokenMessageRef := content l\<rparr>)
          else st1
        else st
      else st)"

text \<open>The effect on the \<open>error\<close> of the chat hook; \<open>m\<close> is \<open>error.message\<close>.\<close>

definition chat_error_effect :: "string \<Rightarrow> agent \<Rightarrow> agent" where
  "chat_error_effect m st =
     emit (Alert (''Chat error: '' @ (if m = [] then ''Unknown error'' else m))) st"

subsection \<open>Disconnecting\<close>

definition handleGenerateFeedback :: "render \<Rightarrow> agent \<Rightarrow> agent" where
  "handleGenerateFeedback r st =
     emit (CreateFeedback (map (\<lambda>m. (role m, content m))
                              (filter (\<lambda>m. role m \<noteq> ''system'') (r_messages r)))) st"

definition handleGenerateFeedback_resume :: "props \<Rightarrow> bool \<Rightarrow> agent \<Rightarrow> agent" where
  "handleGenerateFeedback_resume p ok st =
     emit (RouterPush (if ok then ''/interview/'' @ interviewId p @ ''/feedback'' else ''/'')) st"

text \<open>\<open>socket.close()\<close>: nothing on a socket that is closing or closed.\<close>

definition close_socket :: "nat \<Rightarrow> agent \<Rightarrow> agent" where
  "close_socket k st =
     st\<lparr>sockets := (sockets st)[k := (sockets st ! k)
          \<lparr>readyState := (if readyState (sockets st ! k) = CLOSED then CLOSED else CLOSING)\<rparr>]\<rparr>"

text \<open>The blocks of \<open>handleDisconnect\<close>, in order: the navigation logic, the two state
  updates, and the release of the audio element, the socket, the recorder and the
  microphone stream.\<close>

definition navigate :: "props \<Rightarrow> render \<Rightarrow> agent \<Rightarrow> agent" where
  "navigate p r st =
     (if r_callStatus r = ACTIVE \<or> r_callStatus r = CONNECTING then
        if type p \<noteq> Generate \<and> r_messages r \<noteq> [] then handleGenerateFeedback r st
        else if type p = Generate then emit (RouterPush ''/'') st
        else st
      else st)"

definition discard_audio :: "agent \<Rightarrow> agent" where
  "discard_audio st =
     (case audioRef st of
        None \<Rightarrow> st
      | Some a \<Rightarrow> st\<lparr>audios := (audios st)[a := \<lparr>paused = True, src = None\<rparr>]\<rparr>)"

definition release_socket :: "agent \<Rightarrow> agent" where
  "release_socket st =
     (case socketRef st of
        None \<Rightarrow> st
      | Some k \<Rightarrow> (close_socket k st)\<lparr>socketRef := None\<rparr>)"

definition release_recorder :: "agent \<Rightarrow> agent" where
  "release_recorder st =
     (case recorderRef st of
        None \<Rightarrow> st
      | Some k \<Rightarrow> st\<lparr>recorders := (recorders st)[k := (recorders st ! k)\<lparr>recording := False\<rparr>],
                     recorderRef := None\<rparr>)"

definition release_stream :: "agent \<Rightarrow> agent" where
  "release_stream st =
     (case streamRef st of
        None \<Rightarrow> st
      | Some k \<Rightarrow> st\<lparr>streams := (streams st)[k := False], streamRef := None\<rparr>)"

definition handleDisconnect :: "props \<Rightarrow> render \<Rightarrow> agent \<Rightarrow> agent" where
  "handleDisconnect p r st =
     release_stream (release_recorder (release_socket (discard_audio
       ((navigate p r st)\<lparr>callStatus := FINISHED, isSpeaking := False\<rparr>))))"

subsection \<open>Starting a call\<close>

datatype token_result = FetchRejected | TokenError | Token string

text \<open>\<open>handleCall\<close> up to the token request, in the render \<open>r\<close> it was created in.\<close>

definition handleCall :: "render \<Rightarrow> agent \<Rightarrow> agent" where
  "handleCall r st =
     emit FetchToken (st\<lparr>callStatus := CONNECTING, token_fetches := token_fetches st @ [r]\<rparr>)"

text \<open>\<open>handleCall\<close> from the token response on: the \<open>catch\<close> branch when the request
  fails or the answer carries \<open>error\<close>, otherwise the new socket, whose handlers are
  closures of the same render.\<close>

definition handleCall_resume :: "render \<Rightarrow> token_result \<Rightarrow> agent \<Rightarrow> agent" where
  "handleCall_resume r res st =
     (case res of
        Token tok \<Rightarrow>
          emit (NewWebSocket tok)
            (st\<lparr>sockets := sockets st @ [\<lparr>ws_render = r, readyState = WS_CONNECTING, ws_sent = []\<rparr>],
                socketRef := Some (length (sockets st))\<rparr>)
      | _ \<Rightarrow> emit (Alert ''Error starting call. Please check console.'')
               (st\<lparr>callStatus := INACTIVE\<rparr>))"

text \<open>\<open>startRecording\<close>: the microphone request, then the stream and the recorder whose
  \<open>ondataavailable\<close> sends to the socket it was given; a refusal is only logged.\<close>

definition startRecording :: "nat \<Rightarrow> agent \<Rightarrow> agent" where
  "startRecording sid st = emit (GetUserMedia sid) st"

definition startRecording_resume :: "nat \<Rightarrow> bool \<Rightarrow> agent \<Rightarrow> agent" where
  "startRecording_resume sid granted st =
     (if granted then
        st\<lparr>streams := streams st @ [True], streamRef := Some (length (streams st)),
           recorders := recorders st @ [\<lparr>rec_socket = sid, recording = True\<rparr>],
           recorderRef := Some (length (recorders st))\<rparr>
      else st)"

definition onopen :: "nat \<Rightarrow> agent \<Rightarrow> agent" where
  "onopen sid st =
     (let st1 = startRecording sid (st\<lparr>callStatus := ACTIVE\<rparr>)
      in if r_messages (ws_render (sockets st ! sid)) = []
         then append_chat (user_message ''Hello'') st1 else st1)"

record ws_message =
  message_type :: string
  msg_text :: string

text \<open>The callback of the silence timeout.\<close>

definition silence_callback :: "agent \<Rightarrow> agent" where
  "silence_callback st =
     (let fullText = trim (accumulatedTextRef st)
      in if fullText \<noteq> []
         then (append_chat (user_message fullText) st)\<lparr>accumulatedTextRef := []\<rparr>
         else st)"

text \<open>\<open>socket.onmessage\<close> for a parsed message, at time \<open>now\<close> (milliseconds).\<close>

definition onmessage :: "nat \<Rightarrow> ws_message \<Rightarrow> agent \<Rightarrow> agent" where
  "onmessage now msg st =
     (if message_type msg = ''FinalTranscript'' then
        if trim (msg_text msg) \<noteq> [] then
          let st1 = st\<lparr>accumulatedTextRef := accumulatedTextRef st @ '' '' @ msg_text msg\<rparr>;
              st2 = (case silenceTimeoutRef st1 of
                       None \<Rightarrow> st1
                     | Some i \<Rightarrow> clearTimeout i st1);
              (i, st3) = setTimeout now 3000 st2
          in st3\<lparr>silenceTimeoutRef := Some i\<rparr>
        else st
      else st)"

definition onerror :: "agent \<Rightarrow> agent" where
  "onerror st = st"

definition onclose :: "props \<Rightarrow> nat \<Rightarrow> agent \<Rightarrow> agent" where
  "onclose p sid st =
     (let r = ws_render (sockets st ! sid)
      in if r_callStatus r = ACTIVE then handleDisconnect p r st else st)"

subsection \<open>Forwarding audio\<close>

text \<open>\<open>s.split(",")\<close>, and indexing the result (\<open>None\<close> for \<open>undefined\<close>).\<close>

fun split_comma :: "string \<Rightarrow> string list" where
  "split_comma [] = [[]]"
| "split_comma (c # cs) =
     (if c = CHR '','' then [] # split_comma cs
      else (case split_comma cs of
              x # xs \<Rightarrow> (c # x) # xs
            | [] \<Rightarrow> [[c]]))"

definition at_index :: "'a list \<Rightarrow> nat \<Rightarrow> 'a option" where
  "at_index xs i = (if i < length xs then Some (xs ! i) else None)"

text \<open>\<open>reader.onload\<close> inside \<open>ondataavailable\<close> of the recorder that sends to socket
  \<open>sid\<close>; \<open>url\<close> is \<open>reader.result\<close>.\<close>

definition reader_onload :: "nat \<Rightarrow> string \<Rightarrow> agent \<Rightarrow> agent" where
  "reader_onload sid url st =
     (let base64data = at_index (split_comma url) 1
      in if readyState (sockets st ! sid) = OPEN
         then st\<lparr>sockets := (sockets st)[sid := (sockets st ! sid)
                   \<lparr>ws_sent := ws_sent (sockets st ! sid) @ [base64data]\<rparr>]\<rparr>
         else st)"

subsection \<open>Events\<close>

text \<open>
  What can happen to the component. A click runs the handler of the latest render; the
  Call button is rendered while the status is not \<open>ACTIVE\<close>, the End button while it is.
  The cleanup on unmount runs the \<open>handleDisconnect\<close> of the first render. A socket
  event runs the handler installed on that socket; the browser sets \<open>readyState\<close>
  before it fires \<open>open\<close> and \<open>close\<close>. \<open>ChatUpdate\<close> is the chat hook changing
  \<open>messages\<close> and \<open>isLoading\<close> while a reply streams in, \<open>ChatError\<close> the hook reporting an
  error. After an event that changed \<open>messages\<close> or \<open>isLoading\<close> the component renders
  again and the effect that triggers \<open>playTTS\<close> runs.
\<close>

datatype event =
    ClickCall
  | ClickEnd
  | Unmount
  | TokenResponse nat token_result
  | SocketOpen nat
  | SocketMessage nat nat ws_message
  | SocketError nat
  | SocketClose nat
  | MicResponse nat bool
  | SliceEncoded nat string
  | TimerFire nat
  | ChatUpdate "message list" bool
  | TTSResponse nat tts_response
  | AudioEnded nat
  | AudioError nat string
  | FeedbackResponse bool
  | ChatError string

definition set_readyState :: "nat \<Rightarrow> ready_state \<Rightarrow> agent \<Rightarrow> agent" where
  "set_readyState sid rs st =
     st\<lparr>sockets := (sockets st)[sid := (sockets st ! sid)\<lparr>readyState := rs\<rparr>]\<rparr>"

definition timer_fire :: "nat \<Rightarrow> agent \<Rightarrow> agent" where
  "timer_fire i st =
     (if i \<in> fst ` set (timers st) then silence_callback (clearTimeout i st) else st)"

definition handle :: "props \<Rightarrow> event \<Rightarrow> agent \<Rightarrow> agent" where
  "handle p ev st =
     (case ev of
        ClickCall \<Rightarrow> if callStatus st \<noteq> ACTIVE then handleCall (render_of st) st else st
      | ClickEnd \<Rightarrow> if callStatus st = ACTIVE then handleDisconnect p (render_of st) st else st
      | Unmount \<Rightarrow> handleDisconnect p (render_of initial) st
      | TokenResponse k res \<Rightarrow>
          if k < length (token_fetches st) then handleCall_resume (token_fetches st ! k) res st
          else st
      | SocketOpen sid \<Rightarrow>
          if sid < length (sockets st) then onopen sid (set_readyState sid OPEN st) else st
      | SocketMessage sid now msg \<Rightarrow>
          if sid < length (sockets st) then onmessage now msg st else st
      | SocketError sid \<Rightarrow> if sid < length (sockets st) then onerror st else st
      | SocketClose sid \<Rightarrow>
          if sid < length (sockets st) then onclose p sid (set_readyState sid CLOSED st) else st
      | MicResponse sid granted \<Rightarrow>
          if sid < length (sockets st) then startRecording_resume sid granted st else st
      | SliceEncoded sid url \<Rightarrow>
          if sid < length (sockets st) then reader_onload sid url st else st
      | TimerFire i \<Rightarrow> timer_fire i st
      | ChatUpdate ms loading \<Rightarrow> st\<lparr>messages := ms, isLoading := loading\<rparr>
      | TTSResponse k res \<Rightarrow>
          if k < length (tts_fetches st) then playTTS_resume k res st else st
      | AudioEnded a \<Rightarrow>
          if a < length (audios st)
          then audio_onended a (st\<lparr>audios := (audios st)[a := (audios st ! a)\<lparr>paused := True\<rparr>]\<rparr>)
          else st
      | AudioError a code \<Rightarrow> if a < length (audios st) then audio_onerror a code st else st
      | FeedbackResponse ok \<Rightarrow> handleGenerateFeedback_resume p ok st
      | ChatError m \<Rightarrow> chat_error_effect m st)"

definition step :: "props \<Rightarrow> agent \<Rightarrow> event \<Rightarrow> agent" where
  "step p st ev =
     (let st' = handle p ev st
      in if messages st' \<noteq> messages st \<or> isLoading st' \<noteq> isLoading st
         then tts_effect p st' else st')"

definition run :: "props \<Rightarrow> event list \<Rightarrow> agent \<Rightarrow> agent" where
  "run p evs st = foldl (step p) st evs"

subsection \<open>The utterance segmenter under a clock\<close>

text \<open>
  Final transcripts arrive at given times. A timeout due at or before the time of an
  arrival has fired before the arrival is handled; what is pending at the end fires
  afterwards.
\<close>

definition fire_due :: "nat \<Rightarrow> agent \<Rightarrow> agent" where
  "fire_due now st =
     foldl (\<lambda>s (i, d). timer_fire i s) st (filter (\<lambda>(i, d). d \<le> now) (timers st))"

definition final_transcript :: "string \<Rightarrow> ws_message" where
  "final_transcript t = \<lparr>message_type = ''FinalTranscript'', msg_text = t\<rparr>"

definition arrive :: "agent \<Rightarrow> nat \<times> string \<Rightarrow> agent" where
  "arrive st f = onmessage (fst f) (final_transcript (snd f)) (fire_due (fst f) st)"

definition drain :: "agent \<Rightarrow> agent" where
  "drain st = foldl (\<lambda>s (i, d). timer_fire i s) st (timers st)"

definition segmenter :: "(nat \<times> string) list \<Rightarrow> agent \<Rightarrow> agent" where
  "segmenter fs st = drain (foldl arrive st fs)"

text \<open>\<open>texts.join(" ")\<close>.\<close>

fun space_join :: "string list \<Rightarrow> string" where
  "space_join [] = []"
| "space_join [t] = t"
| "space_join (t # ts) = t @ '' '' @ space_join ts"

text \<open>A burst: the arrival times do not decrease, consecutive arrivals are less than
  3000 ms apart, and no text is blank.\<close>

fun burst :: "(nat \<times> string) list \<Rightarrow> bool" where
  "burst [] = True"
| "burst [f] = (trim (snd f) \<noteq> [])"
| "burst (f # g # fs) =
     (trim (snd f) \<noteq> [] \<and> fst f \<le> fst g \<and> fst g < fst f + 3000 \<and> burst (g # fs))"

subsection \<open>Sessions\<close>

text \<open>
  The condition under which the guard works, in the words of the specification: the
  conversation holds an assistant message that records a call of the tool.
\<close>

definition records_call :: "message list \<Rightarrow> bool" where
  "records_call ms \<longleftrightarrow>
     (\<exists>m \<in> set ms. role m = ''assistant'' \<and>
        (\<exists>tcs. tool_calls m = Some tcs \<and> (\<exists>tc \<in> set tcs. tcr_name tc = ''generate_interview'')))"

text \<open>
  A session is the list of request bodies the client submits, one per turn.
  \<open>keeps_record\<close> says of a session that every request submitted after a turn that
  executed the tool carries a history that records the call; it is the condition under
  which the guard bounds the executions of a session.
\<close>

fun keeps_record :: "env \<Rightarrow> post_body list \<Rightarrow> bool" where
  "keeps_record e [] = True"
| "keeps_record e (b # bs) =
     ((executed (POST e b) = [] \<or> list_all (\<lambda>b'. records_call (body_messages b')) bs)
      \<and> keeps_record e bs)"

definition session_executed :: "env \<Rightarrow> post_body list \<Rightarrow> gen_params list" where
  "session_executed e bs = concat (map (\<lambda>b. executed (POST e b)) bs)"

subsection \<open>Example inputs of the chat route\<close>

text \<open>An engine that asks for the tool twice in one payload whenever it is offered the
  tool interface, and answers with text otherwise.\<close>

definition eager_payload :: tool_call_payload where
  "eager_payload =
     \<lparr>tools = Some
        [\<lparr>tc_id = ''call_1'', tc_func = Some \<lparr>fn_name = ''generate_interview'',
            fn_arguments = JObject [(''role'', JString ''Frontend Developer'')]\<rparr>,
          tc_function = None\<rparr>,
         \<lparr>tc_id = ''call_2'', tc_func = None,
          tc_function = Some \<lparr>fn_name = ''generate_interview'',
            fn_arguments = JString ''{}''\<rparr>\<rparr>]\<rparr>"

definition eager_engine :: engine where
  "eager_engine = \<lparr>plain = (\<lambda>ms. Some ''Done.''), with_tools = (\<lambda>ms. ToolCalls eager_payload)\<rparr>"

text \<open>A stand-in for the wrapper's \<open>appendToolCallMessage\<close>: the assistant message that
  records the call, then the tool message with the outcome string.\<close>

definition record_call :: "tool_call_message \<Rightarrow> message list" where
  "record_call n =
     [\<lparr>role = ''assistant'', content = [],
       tool_calls = Some [\<lparr>tcr_id = tool_call_id n, tcr_name = function_name n,
                           tcr_arguments = []\<rparr>]\<rparr>,
      \<lparr>role = ''tool'', content = tool_call_result n, tool_calls = None\<rparr>]"

definition failing_env :: env where
  "failing_env =
     \<lparr>eng = eager_engine, generateInterview = (\<lambda>p. GenFailure),
      JSON_parse = (\<lambda>s. if s = ''{}'' then Some (JObject []) else None),
      appendToolCallMessage = record_call, systemPrompt = ''You are a helpful assistant''\<rparr>"

definition hello :: message where
  "hello = \<lparr>role = ''user'', content = ''Hello'', tool_calls = None\<rparr>"

definition fresh_body :: post_body where
  "fresh_body = \<lparr>body_messages = [hello], body_userId = JString ''u1'', body_type = Generate\<rparr>"

text \<open>The conversation the follow-up request of a turn carried, without the system
  message: the submitted history and the messages the turn recorded.\<close>

definition carried_history :: "post_run \<Rightarrow> message list" where
  "carried_history r = tl (req_messages (last (requests r)))"

definition recorded_body :: post_body where
  "recorded_body =
     \<lparr>body_messages = carried_history (POST failing_env fresh_body)
        @ [\<lparr>role = ''user'', content = ''Again please'', tool_calls = None\<rparr>],
      body_userId = JString ''u1'', body_type = Generate\<rparr>"

text \<open>The same collaborators with a \<open>generateInterview\<close> that succeeds.\<close>

definition succeeding_env :: env where
  "succeeding_env = failing_env\<lparr>generateInterview := (\<lambda>p. GenSuccess ''interview_1'')\<rparr>"

text \<open>
  What the chat hook of the component holds after a turn. The route returns the text
  stream and nothing else (\<open>new StreamingTextResponse(stream)\<close>), so the hook holds the
  messages it submitted and the streamed text as an assistant message; the messages
  \<open>appendToolCallMessage\<close> built went into the follow-up request only.
\<close>

definition client_history :: "post_body \<Rightarrow> post_run \<Rightarrow> message list" where
  "client_history b r =
     body_messages b @
       (case result r of
          Streamed s \<Rightarrow> [\<lparr>role = ''assistant'', content = s, tool_calls = None\<rparr>]
        | _ \<Rightarrow> [])"

text \<open>The body of the second turn of a session: the hook's conversation after the first
  turn, and the next user message.\<close>

definition second_body :: post_body where
  "second_body =
     \<lparr>body_messages = client_history fresh_body (POST succeeding_env fresh_body)
        @ [\<lparr>role = ''user'', content = ''Again please'', tool_calls = None\<rparr>],
      body_userId = JString ''u1'', body_type = Generate\<rparr>"

text \<open>A tool call whose argument text does not parse.\<close>

definition malformed_call :: fn_call where
  "malformed_call = \<lparr>fn_name = ''generate_interview'', fn_arguments = JString ''{role:''\<rparr>"

subsection \<open>Example inputs of the call component\<close>

definition interview_props :: props where
  "interview_props = \<lparr>type = Interview, interviewId = ''i1''\<rparr>"

definition setup_props :: props where
  "setup_props = \<lparr>type = Generate, interviewId = []\<rparr>"

definition assistant_message :: "string \<Rightarrow> message" where
  "assistant_message t = \<lparr>role = ''assistant'', content = t, tool_calls = None\<rparr>"

text \<open>A call is started, the token arrives and the channel opens.\<close>

definition connect :: "event list" where
  "connect = [ClickCall, TokenResponse 0 (Token ''tok''), SocketOpen 0]"

text \<open>After the greeting the assistant asks, the user answers and the assistant replies.\<close>

definition one_exchange :: "event list" where
  "one_exchange =
     connect @
     [ChatUpdate [user_message ''Hello'', assistant_message ''Tell me about yourself.''] False,
      ChatUpdate [user_message ''Hello'', assistant_message ''Tell me about yourself.'',
                  user_message ''I am a developer'', assistant_message ''Good point.''] False]"

text \<open>The open channel then closes without a disconnect request.\<close>

definition channel_drop :: "event list" where
  "channel_drop = connect @ [SocketClose 0]"

text \<open>The user speaks at 1000 ms and ends the call before the silence timeout is due.\<close>

definition hang_up_mid_utterance :: "event list" where
  "hang_up_mid_utterance =
     connect @ [SocketMessage 0 1000 \<lparr>message_type = ''FinalTranscript'', msg_text = ''one more thing''\<rparr>,
                ClickEnd]"

text \<open>Two assistant replies stream in and complete before the synthesis of the first one
  has answered; then both answers arrive.\<close>

definition two_replies :: "event list" where
  "two_replies =
     [ChatUpdate [assistant_message ''First''] True,
      ChatUpdate [assistant_message ''First reply''] True,
      ChatUpdate [assistant_message ''First reply''] False,
      ChatUpdate [assistant_message ''First reply'', user_message ''ok''] True,
      ChatUpdate [assistant_message ''First reply'', user_message ''ok'',
                  assistant_message ''Second reply''] True,
      ChatUpdate [assistant_message ''First reply'', user_message ''ok'',
                  assistant_message ''Second reply''] False,
      TTSResponse 0 (TTSOk None),
      TTSResponse 1 (TTSOk None)]"

text \<open>Three completed assistant turns, the third with the text of the first.\<close>

definition repeated_reply :: "event list" where
  "repeated_reply =
     [ChatUpdate [assistant_message ''Understood.''] False,
      ChatUpdate [assistant_message ''Understood.'', user_message ''a'',
                  assistant_message ''Good point.''] False,
      ChatUpdate [assistant_message ''Understood.'', user_message ''a'',
                  assistant_message ''Good point.'', user_message ''b'',
                  assistant_message ''Understood.''] False]"

text \<open>The token arrives, but the channel fails to open: the socket fires \<open>error\<close>, then
  \<open>close\<close>.\<close>

definition channel_open_failure :: "event list" where
  "channel_open_failure = [ClickCall, TokenResponse 0 (Token ''tok''), SocketError 0, SocketClose 0]"

text \<open>A slice is forwarded on the open channel; then the channel closes.\<close>

definition closed_channel :: "event list" where
  "closed_channel = connect @ [SliceEncoded 0 ''data:audio/wav;base64,AAAA'', SocketClose 0]"

text \<open>Two final transcripts 1200 ms apart, and a third one 3000 ms after the second.\<close>

definition answer :: "(nat \<times> string) list" where
  "answer = [(0, ''I am''), (1200, ''a developer'')]"

definition afterthought :: "(nat \<times> string) list" where
  "afterthought = [(4200, ''yes'')]"

subsection \<open>Notions used in the proofs\<close>

text \<open>What the accumulator holds after a run of final transcripts.\<close>

definition acc_of :: "(nat \<times> string) list \<Rightarrow> string" where
  "acc_of fs = concat (map (\<lambda>f. '' '' @ snd f) fs)"

text \<open>The segmenter with one timeout pending (due at \<open>d\<close>, accumulated text \<open>a\<close>), and at
  rest; \<open>ms\<close> is the conversation.\<close>

definition pending :: "agent \<Rightarrow> string \<Rightarrow> nat \<Rightarrow> message list \<Rightarrow> bool" where
  "pending st a d ms \<longleftrightarrow>
     (\<exists>i. timers st = [(i, d)] \<and> silenceTimeoutRef st = Some i)
     \<and> accumulatedTextRef st = a \<and> messages st = ms"

text \<open>No closure kept by a socket or by a pending token request was created in a render
  whose status was \<open>ACTIVE\<close>.\<close>

definition closures_not_active :: "agent \<Rightarrow> bool" where
  "closures_not_active st \<longleftrightarrow>
     list_all (\<lambda>s. r_callStatus (ws_render s) \<noteq> ACTIVE) (sockets st)
     \<and> list_all (\<lambda>r. r_callStatus r \<noteq> ACTIVE) (token_fetches st)"

definition resting :: "agent \<Rightarrow> message list \<Rightarrow> bool" where
  "resting st ms \<longleftrightarrow> timers st = [] \<and> accumulatedTextRef st = [] \<and> messages st = ms"

section \<open>Properties of the chat route\<close>

lemma tool_loop_executed: "length (cb_executed (tool_loop e b tcs)) \<le> 1"
  by (induction tcs) (auto simp: invoke_tool_def Let_def split: option.splits)

lemma tool_loop_requests: "r \<in> set (cb_requests (tool_loop e b tcs)) \<Longrightarrow> req_tools r = None"
  by (induction tcs) (auto simp: invoke_tool_def Let_def split: option.splits if_splits)

lemma onToolCall_executed: "length (cb_executed (experimental_onToolCall e b p)) \<le> 1"
  using tool_loop_executed [of e b]
  by (auto simp: experimental_onToolCall_def split: option.splits)

lemma onToolCall_requests:
  "r \<in> set (cb_requests (experimental_onToolCall e b p)) \<Longrightarrow> req_tools r = None"
  by (auto simp: experimental_onToolCall_def split: option.splits dest: tool_loop_requests)

lemma hasToolCall_iff:
  "hasToolCall ms \<longleftrightarrow>
     (\<exists>m \<in> set ms. role m = ''assistant'' \<and>
        (\<exists>tcs. tool_calls m = Some tcs \<and> (\<exists>tc \<in> set tcs. tcr_name tc = ''generate_interview'')))"
proof -
  have "(case x of None \<Rightarrow> False | Some tcs \<Rightarrow> P tcs) \<longleftrightarrow> (\<exists>tcs. x = Some tcs \<and> P tcs)"
    for x :: "tool_call_record list option" and P
    by (cases x) auto
  then show ?thesis
    by (simp add: hasToolCall_def list_ex_iff)
qed

lemma POST_executed: "length (executed (POST e b)) \<le> 1"
  using onToolCall_executed [of e b]
  by (auto simp: POST_def Let_def split: completion.splits)

lemma POST_followups: "r \<in> set (tl (requests (POST e b))) \<Longrightarrow> req_tools r = None"
  by (auto simp: POST_def Let_def split: completion.splits dest: onToolCall_requests)

lemma POST_withheld:
  assumes "hasToolCall (body_messages b)"
  shows "executed (POST e b) = []" and "\<forall>r \<in> set (requests (POST e b)). req_tools r = None"
proof -
  have req: "req_tools (first_request e b) = None"
    using assms by (simp add: first_request_def shouldEnableTools_def)
  then have "create (eng e) (first_request e b) \<noteq> ToolCalls p" for p
    by (simp add: create_def split: option.splits)
  then show "executed (POST e b) = []"
    by (simp add: POST_def Let_def split: completion.splits)
  show "\<forall>r \<in> set (requests (POST e b)). req_tools r = None"
    using req by (auto simp: POST_def Let_def split: completion.splits dest: onToolCall_requests)
qed

lemma records_call_hasToolCall: "records_call ms = hasToolCall ms"
  by (simp add: records_call_def hasToolCall_iff)

lemma session_Cons:
  "session_executed e (b # bs) = executed (POST e b) @ session_executed e bs"
  by (simp add: session_executed_def)

lemma session_recorded:
  "list_all (\<lambda>b. records_call (body_messages b)) bs \<Longrightarrow> session_executed e bs = []"
proof (induction bs)
  case Nil
  then show ?case by (simp add: session_executed_def)
next
  case (Cons b bs)
  then show ?case by (simp add: session_Cons records_call_hasToolCall POST_withheld(1))
qed

lemma session_at_most_once: "keeps_record e bs \<Longrightarrow> length (session_executed e bs) \<le> 1"
proof (induction bs)
  case Nil
  then show ?case by (simp add: session_executed_def)
next
  case (Cons b bs)
  show ?case
  proof (cases "executed (POST e b) = []")
    case True
    then show ?thesis using Cons by (simp add: session_Cons)
  next
    case False
    then have "session_executed e bs = []" using Cons.prems session_recorded by simp
    then show ?thesis using POST_executed [of e b] by (simp add: session_Cons)
  qed
qed

text \<open>
  What the guard does give. Whatever the completion engine streams and whatever
  \<open>generateInterview\<close> returns, one run of the handler calls \<open>generateInterview\<close> at most
  once. When the submitted history holds an assistant message that records a call of
  \<open>generate_interview\<close>, every completion request of the run is issued without the tool
  interface and \<open>generateInterview\<close> is not called at all. Every request after the first
  one of a run (the follow-up issued after a tool invocation) is issued without the tool
  interface. Over a session in which every history submitted after an execution records
  the call, \<open>generateInterview\<close> would be called at most once.
\<close>

lemma handler_run_at_most_once:
  "length (executed (POST e b)) \<le> 1
   \<and> (records_call (body_messages b)
        \<longrightarrow> executed (POST e b) = [] \<and> (\<forall>r \<in> set (requests (POST e b)). req_tools r = None))
   \<and> (\<forall>r \<in> set (tl (requests (POST e b))). req_tools r = None)
   \<and> (keeps_record e bs \<longrightarrow> length (session_executed e bs) \<le> 1)"
  using POST_executed [of e b] POST_withheld [of b e] POST_followups [of _ e b]
    session_at_most_once [of e bs]
  unfolding records_call_hasToolCall by blast

lemma fresh_run:
  "executed (POST failing_env fresh_body)
     = [\<lparr>gp_role = JString ''Frontend Developer'', gp_level = JUndefined,
         gp_techstack = JUndefined, gp_type = JUndefined, gp_amount = JUndefined,
         gp_userid = JString ''u1''\<rparr>]"
  "map req_tools (requests (POST failing_env fresh_body)) = [Some [''generate_interview''], None]"
  "map req_tools (tl (requests (POST failing_env fresh_body))) = [None]"
  "map tool_call_result (appended (POST failing_env fresh_body)) = [''Error generating interview.'']"
  "carried_history (POST failing_env fresh_body) = hello # record_call
     \<lparr>tool_call_id = ''call_1'', function_name = ''generate_interview'',
      tool_call_result = ''Error generating interview.''\<rparr>"
  by (simp_all add: POST_def Let_def failing_env_def fresh_body_def eager_engine_def
      eager_payload_def create_def first_request_def shouldEnableTools_def hasToolCall_def
      tools_offered_def experimental_onToolCall_def fn_of_def invoke_tool_def
      parse_arguments_def get_prop_def system_message_def carried_history_def hello_def)

lemma recorded_body_messages:
  "body_messages recorded_body =
     [hello,
      \<lparr>role = ''assistant'', content = [],
       tool_calls = Some [\<lparr>tcr_id = ''call_1'', tcr_name = ''generate_interview'',
                           tcr_arguments = []\<rparr>]\<rparr>,
      \<lparr>role = ''tool'', content = ''Error generating interview.'', tool_calls = None\<rparr>,
      \<lparr>role = ''user'', content = ''Again please'', tool_calls = None\<rparr>]"
  by (simp add: recorded_body_def fresh_run(5) record_call_def)

lemma handler_run_example:
  "length (executed (POST failing_env fresh_body)) = 1
   \<and> executed (POST failing_env recorded_body) = []
   \<and> map req_tools (requests (POST failing_env recorded_body)) = [None]
   \<and> map req_tools (tl (requests (POST failing_env fresh_body))) = [None]
   \<and> length (session_executed failing_env [fresh_body, recorded_body, recorded_body]) = 1"
proof -
  have rec: "records_call (body_messages recorded_body)"
    by (simp add: records_call_def recorded_body_messages)
  have keeps: "keeps_record failing_env [fresh_body, recorded_body, recorded_body]"
    using rec POST_withheld(1) [of recorded_body failing_env]
    by (simp add: records_call_hasToolCall)
  have one: "length (requests (POST failing_env recorded_body)) = 1"
    by (simp add: POST_def Let_def create_def failing_env_def eager_engine_def
        first_request_def shouldEnableTools_def hasToolCall_def recorded_body_messages
        split: completion.splits)
  from handler_run_at_most_once
    [of failing_env recorded_body "[fresh_body, recorded_body, recorded_body]"] rec keeps
  have none: "executed (POST failing_env recorded_body) = []"
    and all: "\<forall>r \<in> set (requests (POST failing_env recorded_body)). req_tools r = None"
    and once: "length (session_executed failing_env [fresh_body, recorded_body, recorded_body]) \<le> 1"
    by blast+
  from all one
  have "map req_tools (requests (POST failing_env recorded_body)) = [None]"
    by (cases "requests (POST failing_env recorded_body)") auto
  moreover have "length (session_executed failing_env [fresh_body, recorded_body, recorded_body]) = 1"
    using once none fresh_run(1) by (simp add: session_Cons session_executed_def [of _ "[]"])
  ultimately show ?thesis
    using none by (simp add: fresh_run)
qed

lemmas route_defs = POST_def Let_def succeeding_env_def failing_env_def fresh_body_def
  eager_engine_def eager_payload_def create_def first_request_def shouldEnableTools_def
  hasToolCall_def tools_offered_def experimental_onToolCall_def fn_of_def invoke_tool_def
  parse_arguments_def get_prop_def system_message_def hello_def record_call_def

lemma first_turn:
  "map tool_call_result (appended (POST succeeding_env fresh_body))
     = [''Interview generated successfully.'']"
  "result (POST succeeding_env fresh_body) = Streamed ''Done.''"
  "length (executed (POST succeeding_env fresh_body)) = 1"
  by (simp_all add: route_defs)

lemma second_turn:
  "second_body =
     \<lparr>body_messages =
        [\<lparr>role = ''user'', content = ''Hello'', tool_calls = None\<rparr>,
         \<lparr>role = ''assistant'', content = ''Done.'', tool_calls = None\<rparr>,
         \<lparr>role = ''user'', content = ''Again please'', tool_calls = None\<rparr>],
      body_userId = JString ''u1'', body_type = Generate\<rparr>"
  by (simp add: second_body_def client_history_def first_turn(2)) (simp add: fresh_body_def hello_def)

lemma second_run:
  "shouldEnableTools (body_type second_body) (body_messages second_body)"
  "req_tools (first_request succeeding_env second_body) = Some [''generate_interview'']"
  "map tool_call_result (appended (POST succeeding_env second_body))
     = [''Interview generated successfully.'']"
  "length (executed (POST succeeding_env second_body)) = 1"
  unfolding second_turn by (simp_all add: route_defs)

text \<open>
  Claim C1. A session of two turns in SETUP mode, with an engine that asks for the tool
  whenever it is offered. In the first turn the tool is executed and succeeds, and the
  reply is streamed. The second turn submits the hook's conversation: the greeting, that
  reply and the next user message. No message of it records the call, so the guard offers
  the tool again and it is executed a second time: two successful executions in one
  session.
\<close>

theorem tool_executed_twice_in_session:
  "map tool_call_result (appended (POST succeeding_env fresh_body))
     = [''Interview generated successfully.'']
   \<and> result (POST succeeding_env fresh_body) = Streamed ''Done.''
   \<and> map role (body_messages second_body) = [''user'', ''assistant'', ''user'']
   \<and> map tool_calls (body_messages second_body) = [None, None, None]
   \<and> shouldEnableTools (body_type second_body) (body_messages second_body)
   \<and> req_tools (first_request succeeding_env second_body) = Some [''generate_interview'']
   \<and> map tool_call_result (appended (POST succeeding_env second_body))
       = [''Interview generated successfully.'']
   \<and> length (session_executed succeeding_env [fresh_body, second_body]) = 2"
proof -
  have "map role (body_messages second_body) = [''user'', ''assistant'', ''user'']"
    and "map tool_calls (body_messages second_body) = [None, None, None]"
    by (simp_all add: second_turn)
  moreover have "length (session_executed succeeding_env [fresh_body, second_body]) = 2"
    by (simp add: session_executed_def first_turn(3) second_run(4))
  ultimately show ?thesis
    using first_turn(1,2) second_run(1,2,3) by simp
qed

lemma shouldEnableTools_content:
  "shouldEnableTools ty (map (\<lambda>m. m\<lparr>content := c m\<rparr>) ms) = shouldEnableTools ty ms"
  by (simp add: shouldEnableTools_def hasToolCall_def list_ex_iff)

lemma onToolCall_malformed:
  assumes "fn_of tc = Some f" "fn_name f = ''generate_interview''"
    "parse_arguments e (fn_arguments f) = None"
  shows "experimental_onToolCall e b \<lparr>tools = Some (tc # rest)\<rparr> =
           \<lparr>cb_executed = [], cb_appended = [], cb_requests = [],
            cb_return = ReturnString ''Error: Invalid tool arguments generated by AI.''\<rparr>"
  using assms by (simp add: experimental_onToolCall_def invoke_tool_def)

lemma parse_arguments_gen:
  "parse_arguments (e\<lparr>generateInterview := g\<rparr>) a = parse_arguments e a"
  by (simp add: parse_arguments_def split: jsvalue.splits)

lemma tool_loop_recorded:
  "map (\<lambda>n. (tool_call_id n, function_name n)) (cb_appended (tool_loop (e\<lparr>generateInterview := g\<rparr>) b tcs))
     = map (\<lambda>n. (tool_call_id n, function_name n)) (cb_appended (tool_loop e b tcs))"
  by (induction tcs) (auto simp: invoke_tool_def Let_def parse_arguments_gen split: option.splits)

lemma onToolCall_recorded:
  "map (\<lambda>n. (tool_call_id n, function_name n))
       (cb_appended (experimental_onToolCall (e\<lparr>generateInterview := g\<rparr>) b pl))
     = map (\<lambda>n. (tool_call_id n, function_name n)) (cb_appended (experimental_onToolCall e b pl))"
  by (simp add: experimental_onToolCall_def tool_loop_recorded split: option.splits)

text \<open>
  Claim C2, as stated, fails: the guard withholds the tool on a history that records a
  failed execution only. In the turn on \<open>fresh_body\<close> the engine asks for the tool and
  \<open>generateInterview\<close> fails, so the recorded outcome is the failure string;
  \<open>recorded_body\<close> carries the messages of that turn's follow-up request, which hold the
  recorded call and no success outcome, and on it the guard is off.
\<close>

theorem failed_call_withholds_tool:
  "map tool_call_result (appended (POST failing_env fresh_body)) = [''Error generating interview.'']
   \<and> ''Interview generated successfully.'' \<notin> set (map content (body_messages recorded_body))
   \<and> \<not> shouldEnableTools (body_type recorded_body) (body_messages recorded_body)
   \<and> req_tools (first_request failing_env recorded_body) = None"
  by (simp add: fresh_run recorded_body_messages first_request_def shouldEnableTools_def
      hasToolCall_def hello_def)

text \<open>
  Claim C2, amended. The tool is offered exactly when the mode is SETUP and no assistant
  message of the submitted history records a call of \<open>generate_interview\<close>. The guard
  never reads a message's content, so the outcome string of a recorded call (success or
  failure) does not change the answer. A payload whose arguments do not parse ends the
  callback with the error string: the tool is not executed, nothing is recorded and no
  follow-up request is issued. An execution that fails is recorded under the same call
  id and function name as one that succeeds.
\<close>

theorem guard_reads_recorded_calls_only:
  "(shouldEnableTools ty ms \<longleftrightarrow>
      ty = Generate \<and>
      \<not> (\<exists>m \<in> set ms. role m = ''assistant'' \<and>
           (\<exists>tcs. tool_calls m = Some tcs \<and> (\<exists>tc \<in> set tcs. tcr_name tc = ''generate_interview''))))
   \<and> shouldEnableTools ty (map (\<lambda>m. m\<lparr>content := c m\<rparr>) ms) = shouldEnableTools ty ms
   \<and> (fn_of tc = Some f \<and> fn_name f = ''generate_interview''
        \<and> parse_arguments e (fn_arguments f) = None \<longrightarrow>
        experimental_onToolCall e b \<lparr>tools = Some (tc # rest)\<rparr> =
          \<lparr>cb_executed = [], cb_appended = [], cb_requests = [],
           cb_return = ReturnString ''Error: Invalid tool arguments generated by AI.''\<rparr>)
   \<and> map (\<lambda>n. (tool_call_id n, function_name n))
          (cb_appended (experimental_onToolCall (e\<lparr>generateInterview := g\<rparr>) b pl))
       = map (\<lambda>n. (tool_call_id n, function_name n)) (cb_appended (experimental_onToolCall e b pl))"
  using onToolCall_malformed [of tc f e b rest] onToolCall_recorded [of g e b pl]
    shouldEnableTools_content [of ty c ms]
  unfolding shouldEnableTools_def hasToolCall_iff by blast

theorem guard_reads_recorded_calls_only_witness:
  "\<not> shouldEnableTools Generate (body_messages recorded_body)
   \<and> \<not> shouldEnableTools Generate
        (map (\<lambda>m. m\<lparr>content := ''Interview generated successfully.''\<rparr>) (body_messages recorded_body))
   \<and> experimental_onToolCall failing_env fresh_body
        \<lparr>tools = Some [\<lparr>tc_id = ''call_9'', tc_func = Some malformed_call, tc_function = None\<rparr>]\<rparr>
       = \<lparr>cb_executed = [], cb_appended = [], cb_requests = [],
          cb_return = ReturnString ''Error: Invalid tool arguments generated by AI.''\<rparr>"
proof -
  let ?tc = "\<lparr>tc_id = ''call_9'', tc_func = Some malformed_call, tc_function = None\<rparr>"
  have rec: "\<exists>m \<in> set (body_messages recorded_body). role m = ''assistant'' \<and>
      (\<exists>tcs. tool_calls m = Some tcs \<and> (\<exists>tc \<in> set tcs. tcr_name tc = ''generate_interview''))"
    by (simp add: recorded_body_messages)
  have bad: "fn_of ?tc = Some malformed_call" "fn_name malformed_call = ''generate_interview''"
    "parse_arguments failing_env (fn_arguments malformed_call) = None"
    by (simp_all add: fn_of_def malformed_call_def parse_arguments_def failing_env_def)
  show ?thesis
    using guard_reads_recorded_calls_only [of Generate "body_messages recorded_body"
        "\<lambda>m. ''Interview generated successfully.''" ?tc malformed_call failing_env fresh_body "[]"]
      rec bad
    by simp
qed

section \<open>Properties of the utterance segmenter\<close>

lemma trim_ws_cons: "is_ws c \<Longrightarrow> trim (c # s) = trim s"
  by (simp add: trim_def)

lemma space_is_ws: "is_ws CHR '' ''"
  by (simp add: is_ws_def)

lemma trim_nonempty_iff: "trim s \<noteq> [] \<longleftrightarrow> (\<exists>c \<in> set s. \<not> is_ws c)"
proof -
  have "dropWhile is_ws (rev (dropWhile is_ws s)) = [] \<longleftrightarrow> dropWhile is_ws s = []"
  proof
    assume a: "dropWhile is_ws (rev (dropWhile is_ws s)) = []"
    show "dropWhile is_ws s = []"
    proof (rule ccontr)
      assume n: "dropWhile is_ws s \<noteq> []"
      then have "\<not> is_ws (hd (dropWhile is_ws s))" by (rule hd_dropWhile)
      moreover have "hd (dropWhile is_ws s) \<in> set (rev (dropWhile is_ws s))" using n by simp
      ultimately show False using a by (auto simp: dropWhile_eq_Nil_conv)
    qed
  next
    assume e: "dropWhile is_ws s = []"
    show "dropWhile is_ws (rev (dropWhile is_ws s)) = []" unfolding e by simp
  qed
  then show ?thesis
    by (simp add: trim_def dropWhile_eq_Nil_conv)
qed

lemma acc_of_join: "fs \<noteq> [] \<Longrightarrow> acc_of fs = '' '' @ space_join (map snd fs)"
  by (induction fs rule: burst.induct) (auto simp: acc_of_def)

lemma trim_acc_of: "fs \<noteq> [] \<Longrightarrow> trim (acc_of fs) = trim (space_join (map snd fs))"
  by (simp add: acc_of_join trim_ws_cons space_is_ws)

lemma onmessage_pending:
  assumes "trim t \<noteq> []" "timers st = [] \<or> (\<exists>i d. timers st = [(i, d)] \<and> silenceTimeoutRef st = Some i)"
  shows "pending (onmessage now (final_transcript t) st) (accumulatedTextRef st @ '' '' @ t) (now + 3000) (messages st)"
  using assms
  by (auto simp: onmessage_def final_transcript_def pending_def setTimeout_def clearTimeout_def Let_def
      split: option.splits)

lemma arrive_early:
  assumes "pending st a d ms" "fst f < d" "trim (snd f) \<noteq> []"
  shows "pending (arrive st f) (a @ '' '' @ snd f) (fst f + 3000) ms"
proof -
  from assms(1) obtain i where i: "timers st = [(i, d)]" "silenceTimeoutRef st = Some i"
    and a: "accumulatedTextRef st = a" "messages st = ms"
    by (auto simp: pending_def)
  have "fire_due (fst f) st = st" using i assms(2) by (simp add: fire_due_def)
  then show ?thesis
    using onmessage_pending [OF assms(3), of st "fst f"] i a by (simp add: arrive_def)
qed

lemma timer_fire_pending:
  assumes "pending st a d ms" "trim a \<noteq> []" "timers st = [(i, d)]"
  shows "resting (timer_fire i st) (ms @ [user_message (trim a)])"
  using assms
  by (auto simp: pending_def resting_def timer_fire_def clearTimeout_def silence_callback_def
      Let_def append_chat_def)

lemma arrive_resting:
  assumes "resting st ms" "trim (snd f) \<noteq> []"
  shows "pending (arrive st f) ('' '' @ snd f) (fst f + 3000) ms"
proof -
  from assms(1) have r: "timers st = []" "accumulatedTextRef st = []" "messages st = ms"
    by (auto simp: resting_def)
  have "fire_due (fst f) st = st" using r by (simp add: fire_due_def)
  then show ?thesis
    using onmessage_pending [OF assms(2), of st "fst f"] r by (simp add: arrive_def)
qed

lemma arrive_late:
  assumes "pending st a d ms" "trim a \<noteq> []" "d \<le> fst f" "trim (snd f) \<noteq> []"
  shows "pending (arrive st f) ('' '' @ snd f) (fst f + 3000) (ms @ [user_message (trim a)])"
proof -
  from assms(1) obtain i where i: "timers st = [(i, d)]"
    by (auto simp: pending_def)
  have "fire_due (fst f) st = timer_fire i st" using i assms(3) by (simp add: fire_due_def)
  moreover have "resting (timer_fire i st) (ms @ [user_message (trim a)])"
    using timer_fire_pending [OF assms(1,2) i] .
  ultimately have "resting (fire_due (fst f) st) (ms @ [user_message (trim a)])" by simp
  then have r: "timers (fire_due (fst f) st) = []" "accumulatedTextRef (fire_due (fst f) st) = []"
    "messages (fire_due (fst f) st) = ms @ [user_message (trim a)]"
    by (auto simp: resting_def)
  show ?thesis
    using onmessage_pending [OF assms(4), of "fire_due (fst f) st" "fst f"] r
    by (simp add: arrive_def)
qed

lemma drain_pending:
  assumes "pending st a d ms" "trim a \<noteq> []"
  shows "resting (drain st) (ms @ [user_message (trim a)])"
proof -
  from assms(1) obtain i where i: "timers st = [(i, d)]"
    by (auto simp: pending_def)
  then have "drain st = timer_fire i st" by (simp add: drain_def)
  then show ?thesis using timer_fire_pending [OF assms i] by simp
qed

lemma burst_head: "burst (f # fs) \<Longrightarrow> trim (snd f) \<noteq> []"
  by (cases fs) auto

lemma burst_tail: "burst (f # fs) \<Longrightarrow> burst fs"
  by (cases fs) auto

text \<open>A burst that continues a pending utterance.\<close>

lemma burst_continue:
  assumes "pending st a d ms" "burst fs" "fs \<noteq> []" "fst (hd fs) < d"
  shows "pending (foldl arrive st fs) (a @ acc_of fs) (fst (last fs) + 3000) ms"
  using assms
proof (induction fs arbitrary: st a d rule: burst.induct)
  case 1
  then show ?case by simp
next
  case (2 f)
  then show ?case using arrive_early [of st a d ms f] by (simp add: acc_of_def)
next
  case (3 f g fs)
  have p: "pending (arrive st f) (a @ '' '' @ snd f) (fst f + 3000) ms"
    using 3 arrive_early [of st a d ms f] by simp
  have "pending (foldl arrive (arrive st f) (g # fs)) ((a @ '' '' @ snd f) @ acc_of (g # fs))
      (fst (last (g # fs)) + 3000) ms"
    using "3.IH" [OF p] "3.prems" by simp
  then show ?case by (simp add: acc_of_def)
qed

lemma trim_acc_nonempty:
  assumes "burst fs" "fs \<noteq> []"
  shows "trim (a @ acc_of fs) \<noteq> []"
proof (cases fs)
  case Nil
  then show ?thesis using assms by simp
next
  case (Cons f gs)
  have "trim (snd f) \<noteq> []" using assms(1) burst_head [of f gs] by (simp add: Cons)
  then show ?thesis using Cons by (auto simp: trim_nonempty_iff acc_of_def)
qed

lemma burst_from_rest:
  assumes "resting st ms" "burst fs" "fs \<noteq> []"
  shows "pending (foldl arrive st fs) (acc_of fs) (fst (last fs) + 3000) ms"
proof (cases fs)
  case Nil
  then show ?thesis using assms by simp
next
  case (Cons f gs)
  have t: "trim (snd f) \<noteq> []" using assms(2) burst_head [of f gs] by (simp add: Cons)
  have p: "pending (arrive st f) ('' '' @ snd f) (fst f + 3000) ms"
    using arrive_resting [OF assms(1) t] .
  show ?thesis
  proof (cases gs)
    case Nil
    then show ?thesis using p Cons by (simp add: acc_of_def)
  next
    case (Cons g hs)
    have "pending (foldl arrive (arrive st f) gs) (('' '' @ snd f) @ acc_of gs) (fst (last gs) + 3000) ms"
      using burst_continue [OF p, of gs] assms(2) \<open>fs = f # gs\<close> Cons by simp
    then show ?thesis using \<open>fs = f # gs\<close> Cons by (simp add: acc_of_def)
  qed
qed

lemma burst_after_gap:
  assumes "pending st a d ms" "trim a \<noteq> []" "burst gs" "gs \<noteq> []" "d \<le> fst (hd gs)"
  shows "pending (foldl arrive st gs) (acc_of gs) (fst (last gs) + 3000) (ms @ [user_message (trim a)])"
proof (cases gs)
  case Nil
  then show ?thesis using assms by simp
next
  case (Cons g hs)
  have t: "trim (snd g) \<noteq> []" using assms(3) burst_head [of g hs] by (simp add: Cons)
  have p: "pending (arrive st g) ('' '' @ snd g) (fst g + 3000) (ms @ [user_message (trim a)])"
    using arrive_late [OF assms(1,2) _ t] assms(5) Cons by simp
  show ?thesis
  proof (cases hs)
    case Nil
    then show ?thesis using p Cons by (simp add: acc_of_def)
  next
    case (Cons h ks)
    have "pending (foldl arrive (arrive st g) hs) (('' '' @ snd g) @ acc_of hs) (fst (last hs) + 3000)
        (ms @ [user_message (trim a)])"
      using burst_continue [OF p, of hs] assms(3) \<open>gs = g # hs\<close> Cons by simp
    then show ?thesis using \<open>gs = g # hs\<close> Cons by (simp add: acc_of_def)
  qed
qed

lemma segmenter_one:
  assumes "timers st = []" "accumulatedTextRef st = []" "burst fs" "fs \<noteq> []"
  shows "messages (segmenter fs st) = messages st @ [user_message (trim (space_join (map snd fs)))]"
proof -
  have r: "resting st (messages st)" using assms by (simp add: resting_def)
  have "resting (drain (foldl arrive st fs)) (messages st @ [user_message (trim (acc_of fs))])"
    using drain_pending [OF burst_from_rest [OF r assms(3,4)]] trim_acc_nonempty [OF assms(3,4), of "[]"]
    by simp
  then show ?thesis by (simp add: segmenter_def resting_def trim_acc_of assms(4))
qed

lemma segmenter_two:
  assumes "timers st = []" "accumulatedTextRef st = []" "burst fs" "fs \<noteq> []" "burst gs" "gs \<noteq> []"
    "fst (last fs) + 3000 \<le> fst (hd gs)"
  shows "messages (segmenter (fs @ gs) st) = messages st @
     [user_message (trim (space_join (map snd fs))), user_message (trim (space_join (map snd gs)))]"
proof -
  have r: "resting st (messages st)" using assms by (simp add: resting_def)
  have p: "pending (foldl arrive st fs) (acc_of fs) (fst (last fs) + 3000) (messages st)"
    using burst_from_rest [OF r assms(3,4)] .
  have t: "trim (acc_of fs) \<noteq> []" using trim_acc_nonempty [OF assms(3,4), of "[]"] by simp
  have q: "pending (foldl arrive (foldl arrive st fs) gs) (acc_of gs) (fst (last gs) + 3000)
      (messages st @ [user_message (trim (acc_of fs))])"
    using burst_after_gap [OF p t assms(5,6,7)] .
  have t2: "trim (acc_of gs) \<noteq> []" using trim_acc_nonempty [OF assms(5,6), of "[]"] by simp
  have "resting (drain (foldl arrive (foldl arrive st fs) gs))
      ((messages st @ [user_message (trim (acc_of fs))]) @ [user_message (trim (acc_of gs))])"
    using drain_pending [OF q t2] .
  then show ?thesis by (simp add: segmenter_def resting_def trim_acc_of assms(4,6))
qed

lemma trim_id: "s \<noteq> [] \<Longrightarrow> \<not> is_ws (hd s) \<Longrightarrow> \<not> is_ws (last s) \<Longrightarrow> trim s = s"
proof -
  assume a: "s \<noteq> []" "\<not> is_ws (hd s)" "\<not> is_ws (last s)"
  then have 1: "dropWhile is_ws s = s" by (cases s) auto
  have "rev s \<noteq> []" "\<not> is_ws (hd (rev s))" using a by (simp_all add: hd_rev)
  then have "dropWhile is_ws (rev s) = rev s" by (cases "rev s") auto
  then show ?thesis by (simp add: trim_def 1)
qed

lemma hd_space_join: "ts \<noteq> [] \<Longrightarrow> hd ts \<noteq> [] \<Longrightarrow> hd (space_join ts) = hd (hd ts)"
  by (cases ts rule: space_join.cases) auto

lemma space_join_last_nonempty: "ts \<noteq> [] \<Longrightarrow> last ts \<noteq> [] \<Longrightarrow> space_join ts \<noteq> []"
  by (induction ts rule: space_join.induct) auto

lemma last_space_join: "ts \<noteq> [] \<Longrightarrow> last ts \<noteq> [] \<Longrightarrow> last (space_join ts) = last (last ts)"
proof (induction ts rule: space_join.induct)
  case (3 t u us)
  then have "space_join (u # us) \<noteq> []" using space_join_last_nonempty [of "u # us"] by simp
  then show ?case using 3 by simp
qed simp_all

lemma space_join_nonempty: "ts \<noteq> [] \<Longrightarrow> hd ts \<noteq> [] \<Longrightarrow> space_join ts \<noteq> []"
  by (cases ts rule: space_join.cases) auto

lemma burst_all: "burst fs \<Longrightarrow> f \<in> set fs \<Longrightarrow> trim (snd f) \<noteq> []"
  by (induction fs rule: burst.induct) auto

lemma trim_Nil: "trim [] = []"
  by (simp add: trim_def)

lemma burst_texts:
  assumes "burst fs" "fs \<noteq> []"
  shows "snd (hd fs) \<noteq> []" "snd (last fs) \<noteq> []"
  using burst_all [OF assms(1), of "hd fs"] burst_all [OF assms(1), of "last fs"] assms(2) trim_Nil
  by auto

lemma trim_join_id:
  assumes "burst fs" "fs \<noteq> []" "\<not> is_ws (hd (snd (hd fs)))" "\<not> is_ws (last (snd (last fs)))"
  shows "trim (space_join (map snd fs)) = space_join (map snd fs)"
proof -
  let ?ts = "map snd fs"
  have ne: "?ts \<noteq> []" "hd ?ts \<noteq> []" "last ?ts \<noteq> []"
    using assms(2) burst_texts [OF assms(1,2)] by (simp_all add: hd_map last_map)
  show ?thesis
    using trim_id [OF space_join_nonempty [OF ne(1,2)]] hd_space_join [OF ne(1,2)]
      last_space_join [OF ne(1,3)] assms(2,3,4)
    by (simp add: hd_map last_map)
qed

text \<open>
  Claim C3, amended. Start with no timeout pending and nothing accumulated. For final
  transcripts with non-blank texts that arrive less than 3000 ms apart, the segmenter
  appends exactly one user message, whose content is the space-joined concatenation of
  the texts with white space removed from both ends (the concatenation itself when the
  first text does not start and the last text does not end with white space). When such
  a run is followed, 3000 ms or more after its last transcript, by a second such run, the
  segmenter appends two user messages, one for each run.
\<close>

theorem segmenter_utterances:
  assumes "timers st = []" "accumulatedTextRef st = []" "burst fs" "fs \<noteq> []"
  shows "messages (segmenter fs st)
           = messages st @ [user_message (trim (space_join (map snd fs)))]
       \<and> (\<not> is_ws (hd (snd (hd fs))) \<and> \<not> is_ws (last (snd (last fs)))
            \<longrightarrow> trim (space_join (map snd fs)) = space_join (map snd fs))
       \<and> (burst gs \<and> gs \<noteq> [] \<and> fst (last fs) + 3000 \<le> fst (hd gs)
            \<longrightarrow> messages (segmenter (fs @ gs) st)
                  = messages st @ [user_message (trim (space_join (map snd fs))),
                                   user_message (trim (space_join (map snd gs)))])"
  using segmenter_one [OF assms] segmenter_two [OF assms] trim_join_id [OF assms(3,4)]
  by blast

lemmas seg_defs = segmenter_def drain_def arrive_def fire_due_def onmessage_def
  final_transcript_def timer_fire_def clearTimeout_def setTimeout_def silence_callback_def
  append_chat_def user_message_def trim_def is_ws_def initial_def Let_def

theorem segmenter_utterances_witness:
  "messages (segmenter answer initial) = [user_message ''I am a developer'']
   \<and> messages (segmenter (answer @ afterthought) initial)
       = [user_message ''I am a developer'', user_message ''yes'']"
proof -
  have b: "burst answer" "answer \<noteq> []" "burst afterthought" "afterthought \<noteq> []"
    "fst (last answer) + 3000 \<le> fst (hd afterthought)"
    by (simp_all add: answer_def afterthought_def trim_def is_ws_def)
  have i: "timers initial = []" "accumulatedTextRef initial = []" "messages initial = []"
    by (simp_all add: initial_def)
  have j: "trim (space_join (map snd answer)) = ''I am a developer''"
    "trim (space_join (map snd afterthought)) = ''yes''"
    by (simp_all add: answer_def afterthought_def trim_def is_ws_def)
  show ?thesis
    using segmenter_utterances [OF i(1,2) b(1,2), of afterthought] b(3,4,5) i(3) j
    by simp
qed

text \<open>
  Claim C3, as stated, fails on a text that starts with white space: one final transcript
  \<open>" hi"\<close> is emitted as \<open>"hi"\<close>, which is not the space-joined concatenation of the
  texts.
\<close>

theorem leading_space_trimmed:
  "\<not> (map content (messages (segmenter [(0, '' hi'')] initial))
        = [space_join (map snd [(0 :: nat, '' hi'')])])"
  by (simp add: seg_defs)

section \<open>Properties of the call component\<close>

lemmas agent_defs = run_def step_def handle_def render_of_def emit_def append_chat_def
  user_message_def setTimeout_def clearTimeout_def pause_current_def playTTS_def
  playTTS_resume_def audio_onended_def audio_onerror_def tts_effect_def
  handleGenerateFeedback_def handleGenerateFeedback_resume_def close_socket_def
  chat_error_effect_def
  navigate_def discard_audio_def release_socket_def release_recorder_def release_stream_def
  handleDisconnect_def handleCall_def handleCall_resume_def startRecording_def
  startRecording_resume_def onopen_def silence_callback_def onmessage_def onerror_def
  onclose_def reader_onload_def set_readyState_def timer_fire_def final_transcript_def
  at_index_def trim_def is_ws_def initial_def Let_def

subsection \<open>What the handlers leave unchanged\<close>

lemma agent_type_neq: "(ty \<noteq> Generate) = (ty = Interview)"
  by (cases ty) auto

lemma navigate_frame:
  "callStatus (navigate p r st) = callStatus st"
  "messages (navigate p r st) = messages st"
  "isLoading (navigate p r st) = isLoading st"
  "sockets (navigate p r st) = sockets st"
  "socketRef (navigate p r st) = socketRef st"
  "audioRef (navigate p r st) = audioRef st"
  "recorderRef (navigate p r st) = recorderRef st"
  "streamRef (navigate p r st) = streamRef st"
  "timers (navigate p r st) = timers st"
  "accumulatedTextRef (navigate p r st) = accumulatedTextRef st"
  "token_fetches (navigate p r st) = token_fetches st"
  by (simp_all add: navigate_def handleGenerateFeedback_def emit_def)

lemma navigate_effects:
  "effects (navigate p r st) =
     effects st @
       (if r_callStatus r = ACTIVE \<or> r_callStatus r = CONNECTING then
          if type p = Interview \<and> r_messages r \<noteq> []
          then [CreateFeedback (map (\<lambda>m. (role m, content m))
                  (filter (\<lambda>m. role m \<noteq> ''system'') (r_messages r)))]
          else if type p = Generate then [RouterPush ''/''] else []
        else [])"
  by (simp add: navigate_def handleGenerateFeedback_def emit_def agent_type_neq)

lemma discard_audio_frame:
  "callStatus (discard_audio st) = callStatus st"
  "messages (discard_audio st) = messages st"
  "isLoading (discard_audio st) = isLoading st"
  "sockets (discard_audio st) = sockets st"
  "socketRef (discard_audio st) = socketRef st"
  "recorderRef (discard_audio st) = recorderRef st"
  "streamRef (discard_audio st) = streamRef st"
  "timers (discard_audio st) = timers st"
  "accumulatedTextRef (discard_audio st) = accumulatedTextRef st"
  "token_fetches (discard_audio st) = token_fetches st"
  "effects (discard_audio st) = effects st"
  by (simp_all add: discard_audio_def split: option.splits)

lemma release_socket_frame:
  "callStatus (release_socket st) = callStatus st"
  "messages (release_socket st) = messages st"
  "isLoading (release_socket st) = isLoading st"
  "recorderRef (release_socket st) = recorderRef st"
  "streamRef (release_socket st) = streamRef st"
  "timers (release_socket st) = timers st"
  "accumulatedTextRef (release_socket st) = accumulatedTextRef st"
  "token_fetches (release_socket st) = token_fetches st"
  "effects (release_socket st) = effects st"
  by (simp_all add: release_socket_def close_socket_def split: option.splits)

lemma release_recorder_frame:
  "callStatus (release_recorder st) = callStatus st"
  "messages (release_recorder st) = messages st"
  "isLoading (release_recorder st) = isLoading st"
  "sockets (release_recorder st) = sockets st"
  "streamRef (release_recorder st) = streamRef st"
  "timers (release_recorder st) = timers st"
  "accumulatedTextRef (release_recorder st) = accumulatedTextRef st"
  "token_fetches (release_recorder st) = token_fetches st"
  "effects (release_recorder st) = effects st"
  by (simp_all add: release_recorder_def split: option.splits)

lemma release_stream_frame:
  "callStatus (release_stream st) = callStatus st"
  "messages (release_stream st) = messages st"
  "isLoading (release_stream st) = isLoading st"
  "sockets (release_stream st) = sockets st"
  "timers (release_stream st) = timers st"
  "accumulatedTextRef (release_stream st) = accumulatedTextRef st"
  "token_fetches (release_stream st) = token_fetches st"
  "effects (release_stream st) = effects st"
  by (simp_all add: release_stream_def split: option.splits)

lemmas disconnect_frame = navigate_frame discard_audio_frame release_socket_frame
  release_recorder_frame release_stream_frame

lemma handleDisconnect_status: "callStatus (handleDisconnect p r st) = FINISHED"
  by (simp add: handleDisconnect_def disconnect_frame)

lemma handleDisconnect_effects:
  "effects (handleDisconnect p r st) =
     effects st @
       (if r_callStatus r = ACTIVE \<or> r_callStatus r = CONNECTING then
          if type p = Interview \<and> r_messages r \<noteq> []
          then [CreateFeedback (map (\<lambda>m. (role m, content m))
                  (filter (\<lambda>m. role m \<noteq> ''system'') (r_messages r)))]
          else if type p = Generate then [RouterPush ''/''] else []
        else [])"
  by (simp add: handleDisconnect_def disconnect_frame navigate_effects)

lemma handleDisconnect_frame:
  "messages (handleDisconnect p r st) = messages st"
  "isLoading (handleDisconnect p r st) = isLoading st"
  "timers (handleDisconnect p r st) = timers st"
  "accumulatedTextRef (handleDisconnect p r st) = accumulatedTextRef st"
  "token_fetches (handleDisconnect p r st) = token_fetches st"
  by (simp_all add: handleDisconnect_def disconnect_frame)

lemma sent_update: "ws_sent (xs[k := (xs ! k)\<lparr>readyState := v\<rparr>] ! sid) = ws_sent (xs ! sid)"
proof (cases "k < length xs")
  case True
  then show ?thesis by (cases "k = sid") simp_all
next
  case False
  then show ?thesis by (simp add: list_update_beyond)
qed

lemma release_socket_sent:
  "ws_sent (sockets (release_socket st) ! sid) = ws_sent (sockets st ! sid)"
  by (simp add: release_socket_def close_socket_def sent_update split: option.splits)

lemma handleDisconnect_sent:
  "ws_sent (sockets (handleDisconnect p r st) ! sid) = ws_sent (sockets st ! sid)"
  by (simp add: handleDisconnect_def disconnect_frame release_socket_sent)

lemma playTTS_frame:
  "messages (playTTS p t st) = messages st" "isLoading (playTTS p t st) = isLoading st"
  "sockets (playTTS p t st) = sockets st" "callStatus (playTTS p t st) = callStatus st"
  "count_list (effects (playTTS p t st)) FetchToken = count_list (effects st) FetchToken"
  by (simp_all add: playTTS_def pause_current_def emit_def Let_def split: option.splits)

lemma tts_effect_frame:
  "messages (tts_effect p st) = messages st" "isLoading (tts_effect p st) = isLoading st"
  "sockets (tts_effect p st) = sockets st" "callStatus (tts_effect p st) = callStatus st"
  "count_list (effects (tts_effect p st)) FetchToken = count_list (effects st) FetchToken"
  by (simp_all add: tts_effect_def playTTS_frame Let_def)

lemma connect_state:
  "callStatus (run p connect initial) = ACTIVE"
  "messages (run p connect initial) = [user_message ''Hello'']"
  "effects (run p connect initial) = [FetchToken, NewWebSocket ''tok'', GetUserMedia 0]"
  "map readyState (sockets (run p connect initial)) = [OPEN]"
  "map ws_sent (sockets (run p connect initial)) = [[]]"
  by (simp_all add: connect_def agent_defs)

subsection \<open>The hand-off on disconnect\<close>

lemma step_ClickEnd:
  "callStatus st = ACTIVE \<Longrightarrow> step p st ClickEnd = handleDisconnect p (render_of st) st"
  by (simp add: step_def handle_def handleDisconnect_frame)

text \<open>
  Claim C9, as stated, fails in both directions. The hand-off is attempted without any
  exchange: on opening the channel the component itself appends the user message
  \<open>Hello\<close>, so an interview ended by the End button before any reply hands over that one
  message. And a session that ends otherwise attempts no hand-off after a full exchange:
  the cleanup on unmount runs the \<open>handleDisconnect\<close> of the first render, which skips
  the navigation logic.
\<close>

theorem handoff_follows_messages_not_exchanges:
  "map role (messages (run interview_props connect initial)) = [''user'']
   \<and> effects (step interview_props (run interview_props connect initial) ClickEnd)
       = [FetchToken, NewWebSocket ''tok'', GetUserMedia 0, CreateFeedback [(''user'', ''Hello'')]]
   \<and> map role (messages (run interview_props one_exchange initial))
       = [''user'', ''assistant'', ''user'', ''assistant'']
   \<and> callStatus (run interview_props (one_exchange @ [Unmount]) initial) = FINISHED
   \<and> effects (run interview_props (one_exchange @ [Unmount]) initial)
       = [FetchToken, NewWebSocket ''tok'', GetUserMedia 0,
          FetchTTS ''Tell me about yourself.'' ''Matthew'', FetchTTS ''Good point.'' ''Matthew'']"
  by (simp add: one_exchange_def connect_def assistant_message_def interview_props_def agent_defs)

text \<open>
  Claim C9, amended. When the End button ends an active session, the status becomes
  \<open>FINISHED\<close> and \<open>createFeedback\<close> is called exactly when the mode is INTERVIEW and the
  conversation holds at least one message (the test of the code is
  \<open>messages.length > 0\<close>, and the greeting the component sends counts); it is called with
  the conversation without its system messages. In SETUP mode the session ends with a
  navigation to the start page and no hand-off; in INTERVIEW mode with an empty
  conversation it ends with neither.
\<close>

theorem handoff_on_disconnect:
  assumes "callStatus st = ACTIVE"
  shows "callStatus (step p st ClickEnd) = FINISHED
       \<and> effects (step p st ClickEnd) =
           effects st @
             (if type p = Interview \<and> messages st \<noteq> []
              then [CreateFeedback (map (\<lambda>m. (role m, content m))
                      (filter (\<lambda>m. role m \<noteq> ''system'') (messages st)))]
              else if type p = Generate then [RouterPush ''/''] else [])"
  using assms
  by (simp add: step_ClickEnd handleDisconnect_status handleDisconnect_effects render_of_def)

theorem handoff_on_disconnect_witness:
  "callStatus (step interview_props (run interview_props connect initial) ClickEnd) = FINISHED
   \<and> effects (step interview_props (run interview_props connect initial) ClickEnd)
       = [FetchToken, NewWebSocket ''tok'', GetUserMedia 0, CreateFeedback [(''user'', ''Hello'')]]
   \<and> effects (step setup_props (run setup_props connect initial) ClickEnd)
       = [FetchToken, NewWebSocket ''tok'', GetUserMedia 0, RouterPush ''/'']"
  using handoff_on_disconnect [of "run interview_props connect initial" interview_props]
    handoff_on_disconnect [of "run setup_props connect initial" setup_props]
  by (simp add: connect_state interview_props_def setup_props_def user_message_def)

subsection \<open>Forwarding audio slices\<close>

lemma handle_sent:
  assumes "sid < length (sockets st)"
  shows "ws_sent (sockets (handle p ev st) ! sid) =
           ws_sent (sockets st ! sid) @
             (case ev of
                SliceEncoded k url \<Rightarrow>
                  if k = sid \<and> readyState (sockets st ! sid) = OPEN
                  then [at_index (split_comma url) 1] else []
              | _ \<Rightarrow> [])"
proof (cases ev)
  case ClickCall
  then show ?thesis by (simp add: handle_def handleCall_def emit_def)
next
  case ClickEnd
  then show ?thesis by (simp add: handle_def handleDisconnect_sent)
next
  case Unmount
  then show ?thesis by (simp add: handle_def handleDisconnect_sent)
next
  case (TokenResponse k res)
  then show ?thesis using assms
    by (simp add: handle_def handleCall_resume_def emit_def nth_append split: token_result.splits)
next
  case (SocketOpen k)
  then show ?thesis
    by (simp add: handle_def onopen_def startRecording_def emit_def append_chat_def
        set_readyState_def sent_update Let_def)
next
  case (SocketMessage k now msg)
  then show ?thesis
    by (simp add: handle_def onmessage_def setTimeout_def clearTimeout_def Let_def
        split: option.splits)
next
  case (SocketError k)
  then show ?thesis by (simp add: handle_def onerror_def)
next
  case (SocketClose k)
  then show ?thesis
    by (simp add: handle_def onclose_def handleDisconnect_sent set_readyState_def Let_def sent_update)
next
  case (MicResponse k g)
  then show ?thesis by (simp add: handle_def startRecording_resume_def)
next
  case (SliceEncoded k url)
  then show ?thesis using assms
    by (cases "k = sid") (simp_all add: handle_def reader_onload_def Let_def)
next
  case (TimerFire i)
  then show ?thesis
    by (simp add: handle_def timer_fire_def silence_callback_def clearTimeout_def append_chat_def
        Let_def)
next
  case (ChatUpdate ms l)
  then show ?thesis by (simp add: handle_def)
next
  case (TTSResponse k res)
  then show ?thesis
    by (simp add: handle_def playTTS_resume_def emit_def Let_def
        split: tts_response.splits option.splits)
next
  case (AudioEnded a)
  then show ?thesis by (simp add: handle_def audio_onended_def)
next
  case (AudioError a c)
  then show ?thesis by (simp add: handle_def audio_onerror_def emit_def)
next
  case (FeedbackResponse ok)
  then show ?thesis by (simp add: handle_def handleGenerateFeedback_resume_def emit_def)
next
  case (ChatError m)
  then show ?thesis by (simp add: handle_def chat_error_effect_def emit_def)
qed

text \<open>
  Claim C10. A slice whose encoding completes while the socket is not \<open>OPEN\<close> leaves the
  whole state as it was: nothing is sent, nothing is kept for later, no error is reported.
  Over any event, the frames sent on a socket grow by exactly one frame when the event is
  the completion of a slice for that socket while it is \<open>OPEN\<close>, and do not change
  otherwise; so no later event sends a slice that was dropped.
\<close>

theorem slices_forwarded_only_while_open:
  assumes "sid < length (sockets st)"
  shows "(readyState (sockets st ! sid) \<noteq> OPEN \<longrightarrow> step p st (SliceEncoded sid url) = st)
       \<and> ws_sent (sockets (step p st ev) ! sid) =
           ws_sent (sockets st ! sid) @
             (case ev of
                SliceEncoded k u \<Rightarrow>
                  if k = sid \<and> readyState (sockets st ! sid) = OPEN
                  then [at_index (split_comma u) 1] else []
              | _ \<Rightarrow> [])"
proof -
  have "readyState (sockets st ! sid) \<noteq> OPEN \<Longrightarrow> step p st (SliceEncoded sid url) = st"
    using assms by (simp add: step_def handle_def reader_onload_def Let_def)
  moreover have "sockets (step p st ev) = sockets (handle p ev st)"
    by (simp add: step_def Let_def tts_effect_frame)
  ultimately show ?thesis using handle_sent [OF assms, of p ev] by simp
qed

lemma closed_channel_state:
  "map readyState (sockets (run p closed_channel initial)) = [CLOSED]"
  "map ws_sent (sockets (run p closed_channel initial)) = [[Some ''AAAA'']]"
  by (simp_all add: closed_channel_def connect_def agent_defs)

theorem slices_forwarded_only_while_open_witness:
  "step interview_props (run interview_props closed_channel initial)
       (SliceEncoded 0 ''data:audio/wav;base64,BBBB'')
     = run interview_props closed_channel initial
   \<and> ws_sent (sockets (step interview_props (run interview_props connect initial)
                (SliceEncoded 0 ''data:audio/wav;base64,AAAA'')) ! 0)
       = [Some ''AAAA'']"
proof -
  let ?p = interview_props
  have 1: "0 < length (sockets (run ?p closed_channel initial))"
    "readyState (sockets (run ?p closed_channel initial) ! 0) = CLOSED"
    using closed_channel_state [of ?p] by (auto simp: map_eq_Cons_conv)
  have 2: "0 < length (sockets (run ?p connect initial))"
    "readyState (sockets (run ?p connect initial) ! 0) = OPEN"
    "ws_sent (sockets (run ?p connect initial) ! 0) = []"
    using connect_state(4,5) [of ?p] by (auto simp: map_eq_Cons_conv)
  show ?thesis
    using slices_forwarded_only_while_open [OF 1(1), of ?p "''data:audio/wav;base64,BBBB''"]
      slices_forwarded_only_while_open [OF 2(1), of ?p _ "SliceEncoded 0 ''data:audio/wav;base64,AAAA''"]
      1 2
    by (simp add: at_index_def)
qed

subsection \<open>Failures while connecting\<close>

lemma handle_fetches:
  "count_list (effects (handle p ev st)) FetchToken =
     count_list (effects st) FetchToken + (if ev = ClickCall \<and> callStatus st \<noteq> ACTIVE then 1 else 0)"
proof (cases ev)
  case ClickCall
  then show ?thesis by (simp add: handle_def handleCall_def emit_def)
next
  case ClickEnd
  then show ?thesis by (simp add: handle_def handleDisconnect_effects)
next
  case Unmount
  then show ?thesis by (simp add: handle_def handleDisconnect_effects)
next
  case (TokenResponse k res)
  then show ?thesis
    by (simp add: handle_def handleCall_resume_def emit_def split: token_result.splits)
next
  case (SocketOpen k)
  then show ?thesis
    by (simp add: handle_def onopen_def startRecording_def emit_def append_chat_def
        set_readyState_def Let_def)
next
  case (SocketMessage k now msg)
  then show ?thesis
    by (simp add: handle_def onmessage_def setTimeout_def clearTimeout_def Let_def
        split: option.splits)
next
  case (SocketError k)
  then show ?thesis by (simp add: handle_def onerror_def)
next
  case (SocketClose k)
  then show ?thesis
    by (simp add: handle_def onclose_def handleDisconnect_effects set_readyState_def Let_def)
next
  case (MicResponse k g)
  then show ?thesis by (simp add: handle_def startRecording_resume_def)
next
  case (SliceEncoded k url)
  then show ?thesis by (simp add: handle_def reader_onload_def Let_def)
next
  case (TimerFire i)
  then show ?thesis
    by (simp add: handle_def timer_fire_def silence_callback_def clearTimeout_def append_chat_def
        Let_def)
next
  case (ChatUpdate ms l)
  then show ?thesis by (simp add: handle_def)
next
  case (TTSResponse k res)
  then show ?thesis
    by (simp add: handle_def playTTS_resume_def emit_def Let_def
        split: tts_response.splits option.splits)
next
  case (AudioEnded a)
  then show ?thesis by (simp add: handle_def audio_onended_def)
next
  case (AudioError a c)
  then show ?thesis by (simp add: handle_def audio_onerror_def emit_def)
next
  case (FeedbackResponse ok)
  then show ?thesis by (simp add: handle_def handleGenerateFeedback_resume_def emit_def)
next
  case (ChatError m)
  then show ?thesis by (simp add: handle_def chat_error_effect_def emit_def)
qed

lemma step_fetches:
  "count_list (effects (step p st ev)) FetchToken =
     count_list (effects st) FetchToken + (if ev = ClickCall \<and> callStatus st \<noteq> ACTIVE then 1 else 0)"
  by (simp add: step_def Let_def tts_effect_frame handle_fetches)

lemma step_token_failure:
  assumes "k < length (token_fetches st)" "res = FetchRejected \<or> res = TokenError"
  shows "step p st (TokenResponse k res)
           = emit (Alert ''Error starting call. Please check console.'') (st\<lparr>callStatus := INACTIVE\<rparr>)"
  using assms by (auto simp: step_def handle_def handleCall_resume_def emit_def)

text \<open>
  Claim C8. A token request that fails takes the \<open>catch\<close> branch (\<open>step_token_failure\<close>):
  the status reverts to \<open>INACTIVE\<close> and the alert is raised; and no event but a click on
  the Call button issues a token request (\<open>step_fetches\<close>), so nothing is retried. A
  channel that fails to open does not reach that branch: the token arrives, the socket
  fires \<open>error\<close> and \<open>close\<close>, \<open>onerror\<close> only logs and \<open>onclose\<close> acts only on \<open>ACTIVE\<close>. The
  status is still \<open>CONNECTING\<close> and no alert is among the effects.
\<close>

theorem open_failure_stays_connecting:
  "callStatus (run interview_props channel_open_failure initial) = CONNECTING
   \<and> effects (run interview_props channel_open_failure initial) = [FetchToken, NewWebSocket ''tok'']
   \<and> callStatus (run interview_props [ClickCall, TokenResponse 0 TokenError] initial) = INACTIVE
   \<and> effects (run interview_props [ClickCall, TokenResponse 0 TokenError] initial)
       = [FetchToken, Alert ''Error starting call. Please check console.'']"
  by (simp add: channel_open_failure_def interview_props_def agent_defs)

subsection \<open>Speaking the assistant's replies\<close>

lemma playTTS_blank: "trim t = [] \<Longrightarrow> playTTS p t st = st"
  by (simp add: playTTS_def)

lemma playTTS_fetches:
  "tts_fetches (playTTS p t st) = tts_fetches st @ (if trim t = [] then [] else [t])"
  by (auto simp: playTTS_def pause_current_def emit_def Let_def trim_def split: option.splits)

lemma playTTS_lastSpoken:
  "lastSpokenMessageRef (playTTS p t st) = lastSpokenMessageRef st"
  by (simp add: playTTS_def pause_current_def emit_def Let_def split: option.splits)

lemma tts_effect_fetches:
  "tts_fetches (tts_effect p st) =
     tts_fetches st @
       (if messages st \<noteq> [] \<and> role (last (messages st)) = ''assistant''
           \<and> \<not> isLoading st \<and> content (last (messages st)) \<noteq> lastSpokenMessageRef st
           \<and> trim (content (last (messages st))) \<noteq> []
        then [content (last (messages st))] else [])"
  by (auto simp: tts_effect_def playTTS_fetches Let_def trim_def)

lemma tts_effect_lastSpoken:
  "lastSpokenMessageRef (tts_effect p st) =
     (if messages st \<noteq> [] \<and> role (last (messages st)) = ''assistant''
         \<and> content (last (messages st)) \<noteq> [] \<and> \<not> isLoading st
      then content (last (messages st)) else lastSpokenMessageRef st)"
  by (auto simp: tts_effect_def playTTS_lastSpoken Let_def)

text \<open>
  Claim C7, as stated, fails: a final text that recurs after a different one is spoken
  again. Three turns complete with the texts \<open>Understood.\<close>, \<open>Good point.\<close>,
  \<open>Understood.\<close>; the synthesis requests are not distinct.
\<close>

theorem same_text_spoken_twice:
  "\<not> distinct (tts_fetches (run interview_props repeated_reply initial))"
  by (simp add: repeated_reply_def assistant_message_def interview_props_def agent_defs)

text \<open>
  Claim C7, amended. The effect issues a synthesis request only when loading is over, the
  last message is the assistant's and its content differs from the last spoken content;
  the request is for that content. Running the effect again on the same conversation
  issues no further request. A call of \<open>playTTS\<close> with empty or white-space-only text
  changes nothing and issues no request.
\<close>

theorem speak_on_completed_new_text:
  "(tts_fetches (tts_effect p st) \<noteq> tts_fetches st \<longrightarrow>
      \<not> isLoading st \<and> messages st \<noteq> [] \<and> role (last (messages st)) = ''assistant''
      \<and> content (last (messages st)) \<noteq> lastSpokenMessageRef st
      \<and> tts_fetches (tts_effect p st) = tts_fetches st @ [content (last (messages st))])
   \<and> tts_fetches (tts_effect p (tts_effect p st)) = tts_fetches (tts_effect p st)
   \<and> (t = [] \<or> trim t = [] \<longrightarrow> playTTS p t st = st)"
proof -
  have "tts_fetches (tts_effect p (tts_effect p st)) = tts_fetches (tts_effect p st)"
    by (simp add: tts_effect_fetches [of p "tts_effect p st"] tts_effect_lastSpoken tts_effect_frame
        trim_Nil)
  moreover have "t = [] \<or> trim t = [] \<Longrightarrow> playTTS p t st = st"
    by (auto simp: playTTS_def)
  ultimately show ?thesis
    by (auto simp: tts_effect_fetches trim_def)
qed

theorem speak_on_completed_new_text_witness:
  "tts_fetches (tts_effect interview_props (initial\<lparr>messages := [assistant_message ''Welcome.'']\<rparr>)) = [''Welcome.'']
   \<and> tts_fetches (tts_effect interview_props (tts_effect interview_props (initial\<lparr>messages := [assistant_message ''Welcome.'']\<rparr>)))
       = [''Welcome.'']
   \<and> playTTS interview_props ''  '' initial = initial"
proof -
  let ?st = "initial\<lparr>messages := [assistant_message ''Welcome.'']\<rparr>"
  have f: "tts_fetches (tts_effect interview_props ?st) = [''Welcome.'']"
    by (simp add: assistant_message_def agent_defs)
  have b: "trim ''  '' = []" by (simp add: trim_def is_ws_def)
  show ?thesis
    using speak_on_completed_new_text [of interview_props ?st "[]"]
      speak_on_completed_new_text [of interview_props initial "''  ''"] f b by simp
qed

subsection \<open>Runs in which the component departs from its specification\<close>

text \<open>The closures kept by sockets and token requests are never those of an \<open>ACTIVE\<close>
  render: \<open>handleCall\<close> runs from the Call button, which is rendered only while the status
  is not \<open>ACTIVE\<close>.\<close>

lemma render_update:
  "list_all (\<lambda>s. r_callStatus (ws_render s) \<noteq> ACTIVE) xs \<Longrightarrow>
     list_all (\<lambda>s. r_callStatus (ws_render s) \<noteq> ACTIVE) (xs[k := (xs ! k)\<lparr>readyState := v\<rparr>])"
  "list_all (\<lambda>s. r_callStatus (ws_render s) \<noteq> ACTIVE) xs \<Longrightarrow>
     list_all (\<lambda>s. r_callStatus (ws_render s) \<noteq> ACTIVE) (xs[k := (xs ! k)\<lparr>ws_sent := w\<rparr>])"
proof -
  assume a: "list_all (\<lambda>s. r_callStatus (ws_render s) \<noteq> ACTIVE) xs"
  show "list_all (\<lambda>s. r_callStatus (ws_render s) \<noteq> ACTIVE) (xs[k := (xs ! k)\<lparr>readyState := v\<rparr>])"
  proof (cases "k < length xs")
    case True
    then show ?thesis using a by (auto simp: list_all_length nth_list_update)
  next
    case False
    then show ?thesis using a by (simp add: list_update_beyond)
  qed
  show "list_all (\<lambda>s. r_callStatus (ws_render s) \<noteq> ACTIVE) (xs[k := (xs ! k)\<lparr>ws_sent := w\<rparr>])"
  proof (cases "k < length xs")
    case True
    then show ?thesis using a by (auto simp: list_all_length nth_list_update)
  next
    case False
    then show ?thesis using a by (simp add: list_update_beyond)
  qed
qed

lemma list_all_nth: "list_all P xs \<Longrightarrow> k < length xs \<Longrightarrow> P (xs ! k)"
  by (simp add: list_all_length)

lemma release_socket_closures:
  "closures_not_active st \<Longrightarrow> closures_not_active (release_socket st)"
  by (simp add: closures_not_active_def release_socket_def close_socket_def render_update
      split: option.splits)

lemma handleDisconnect_closures:
  "closures_not_active st \<Longrightarrow> closures_not_active (handleDisconnect p r st)"
proof -
  assume a: "closures_not_active st"
  let ?s = "discard_audio ((navigate p r st)\<lparr>callStatus := FINISHED, isSpeaking := False\<rparr>)"
  have "closures_not_active ?s"
    using a by (simp add: closures_not_active_def disconnect_frame)
  then have "closures_not_active (release_socket ?s)" by (rule release_socket_closures)
  then show ?thesis
    by (simp add: closures_not_active_def handleDisconnect_def release_recorder_frame
        release_stream_frame)
qed

lemma handle_closures:
  assumes "closures_not_active st"
  shows "closures_not_active (handle p ev st)"
proof (cases ev)
  case ClickCall
  then show ?thesis using assms
    by (simp add: handle_def handleCall_def emit_def closures_not_active_def render_of_def)
next
  case ClickEnd
  then show ?thesis using assms by (simp add: handle_def handleDisconnect_closures)
next
  case Unmount
  then show ?thesis using assms by (simp add: handle_def handleDisconnect_closures)
next
  case (TokenResponse k res)
  then show ?thesis using assms list_all_nth [of "\<lambda>r. r_callStatus r \<noteq> ACTIVE" "token_fetches st" k]
    by (auto simp: handle_def handleCall_resume_def emit_def closures_not_active_def
        split: token_result.splits)
next
  case (SocketOpen k)
  then show ?thesis using assms
    by (simp add: handle_def onopen_def startRecording_def emit_def append_chat_def
        set_readyState_def closures_not_active_def render_update Let_def)
next
  case (SocketMessage k now msg)
  then show ?thesis using assms
    by (simp add: handle_def onmessage_def setTimeout_def clearTimeout_def Let_def
        closures_not_active_def split: option.splits)
next
  case (SocketError k)
  then show ?thesis using assms by (simp add: handle_def onerror_def)
next
  case (SocketClose k)
  have "closures_not_active (set_readyState k CLOSED st)"
    using assms by (simp add: set_readyState_def closures_not_active_def render_update)
  then show ?thesis using SocketClose
    by (simp add: handle_def onclose_def handleDisconnect_closures Let_def assms)
next
  case (MicResponse k g)
  then show ?thesis using assms
    by (simp add: handle_def startRecording_resume_def closures_not_active_def)
next
  case (SliceEncoded k url)
  then show ?thesis using assms
    by (simp add: handle_def reader_onload_def closures_not_active_def render_update Let_def)
next
  case (TimerFire i)
  then show ?thesis using assms
    by (simp add: handle_def timer_fire_def silence_callback_def clearTimeout_def append_chat_def
        closures_not_active_def Let_def)
next
  case (ChatUpdate ms l)
  then show ?thesis using assms by (simp add: handle_def closures_not_active_def)
next
  case (TTSResponse k res)
  then show ?thesis using assms
    by (simp add: handle_def playTTS_resume_def emit_def closures_not_active_def Let_def
        split: tts_response.splits option.splits)
next
  case (AudioEnded a)
  then show ?thesis using assms by (simp add: handle_def audio_onended_def closures_not_active_def)
next
  case (AudioError a c)
  then show ?thesis using assms
    by (simp add: handle_def audio_onerror_def emit_def closures_not_active_def)
next
  case (FeedbackResponse ok)
  then show ?thesis using assms
    by (simp add: handle_def handleGenerateFeedback_resume_def emit_def closures_not_active_def)
next
  case (ChatError m)
  then show ?thesis using assms
    by (simp add: handle_def chat_error_effect_def emit_def closures_not_active_def)
qed

lemma playTTS_closures: "closures_not_active (playTTS p t st) = closures_not_active st"
  by (simp add: closures_not_active_def playTTS_def pause_current_def emit_def Let_def
      split: option.splits)

lemma tts_effect_closures: "closures_not_active (tts_effect p st) = closures_not_active st"
  by (simp add: tts_effect_def playTTS_closures Let_def) (simp add: closures_not_active_def)

lemma step_closures: "closures_not_active st \<Longrightarrow> closures_not_active (step p st ev)"
  by (simp add: step_def Let_def tts_effect_closures handle_closures)

lemma run_closures: "closures_not_active st \<Longrightarrow> closures_not_active (run p evs st)"
  by (induction evs arbitrary: st) (simp_all add: run_def step_closures)

lemma initial_closures: "closures_not_active initial"
  by (simp add: closures_not_active_def initial_def)

lemma close_event_keeps_status:
  "callStatus (step p (run p evs initial) (SocketClose sid)) = callStatus (run p evs initial)"
proof -
  let ?st = "run p evs initial"
  have c: "closures_not_active (set_readyState sid CLOSED ?st)"
    using run_closures [OF initial_closures, of p evs]
    by (simp add: set_readyState_def closures_not_active_def render_update)
  have "sid < length (sockets ?st) \<Longrightarrow>
      r_callStatus (ws_render (sockets (set_readyState sid CLOSED ?st) ! sid)) \<noteq> ACTIVE"
    using c list_all_nth [of "\<lambda>s. r_callStatus (ws_render s) \<noteq> ACTIVE"
        "sockets (set_readyState sid CLOSED ?st)" sid]
    by (simp add: closures_not_active_def set_readyState_def)
  then have "handle p (SocketClose sid) ?st =
      (if sid < length (sockets ?st) then set_readyState sid CLOSED ?st else ?st)"
    by (simp add: handle_def onclose_def Let_def)
  then show ?thesis
    by (simp add: step_def Let_def set_readyState_def tts_effect_frame)
qed

text \<open>\<open>handleDisconnect\<close> leaves a pending silence timeout and the accumulated text as they
  are, so the timeout still appends the text when it fires.\<close>

lemma disconnect_keeps_pending_utterance:
  assumes "i \<in> fst ` set (timers st)" "trim (accumulatedTextRef st) \<noteq> []"
  shows "messages (timer_fire i (handleDisconnect p r st))
           = messages st @ [user_message (trim (accumulatedTextRef st))]"
  using assms
  by (simp add: timer_fire_def handleDisconnect_frame silence_callback_def clearTimeout_def
      append_chat_def Let_def)

text \<open>The answer of a synthesis request pauses no audio element.\<close>

lemma resume_pauses_nothing:
  assumes "a < length (audios st)"
  shows "paused (audios (playTTS_resume k res st) ! a) = paused (audios st ! a)"
  using assms
  by (simp add: playTTS_resume_def emit_def Let_def nth_append
      split: tts_response.splits option.splits)


text \<open>
  Claim C4. The channel closes while the status is \<open>ACTIVE\<close>. The \<open>onclose\<close> handler
  reads the \<open>callStatus\<close> of the render in which \<open>handleCall\<close> ran, which is \<open>INACTIVE\<close>,
  so \<open>handleDisconnect\<close> is not called: the status stays \<open>ACTIVE\<close> and no effect of the
  shutdown appears. By \<open>close_event_keeps_status\<close> the same holds after every run of
  events: the close of a socket never changes the status.
\<close>

theorem channel_close_leaves_session_active:
  "callStatus (run interview_props connect initial) = ACTIVE
   \<and> map (\<lambda>s. r_callStatus (ws_render s)) (sockets (run interview_props connect initial)) = [INACTIVE]
   \<and> callStatus (run interview_props channel_drop initial) = ACTIVE
   \<and> map readyState (sockets (run interview_props channel_drop initial)) = [CLOSED]
   \<and> effects (run interview_props channel_drop initial)
       = [FetchToken, NewWebSocket ''tok'', GetUserMedia 0]"
  by (simp add: channel_drop_def connect_def interview_props_def agent_defs)

text \<open>
  Claim C5. The user speaks and ends the call before the silence timeout is due.
  \<open>handleDisconnect\<close> leaves the timeout pending and the accumulated text in place; when
  the timeout fires, the status is \<open>FINISHED\<close> and the text is appended as a user message.
\<close>

theorem late_timer_appends_after_finished:
  "callStatus (run interview_props hang_up_mid_utterance initial) = FINISHED
   \<and> messages (run interview_props hang_up_mid_utterance initial) = [user_message ''Hello'']
   \<and> timers (run interview_props hang_up_mid_utterance initial) = [(1, 4000)]
   \<and> accumulatedTextRef (run interview_props hang_up_mid_utterance initial) = '' one more thing''
   \<and> callStatus (run interview_props (hang_up_mid_utterance @ [TimerFire 1]) initial) = FINISHED
   \<and> messages (run interview_props (hang_up_mid_utterance @ [TimerFire 1]) initial)
       = [user_message ''Hello'', user_message ''one more thing'']"
  by (simp add: hang_up_mid_utterance_def connect_def interview_props_def agent_defs)

text \<open>
  Claim C6. \<open>playTTS\<close> is called twice before the first synthesis answers. Each call
  pauses the audio element \<open>audioRef\<close> holds at that moment, which is none; when the two
  answers arrive each creates and plays its own element, and both clips play at once.
\<close>

theorem overlapping_playback:
  "tts_fetches (run interview_props two_replies initial) = [''First reply'', ''Second reply'']
   \<and> audios (run interview_props two_replies initial)
       = [\<lparr>paused = False, src = Some ''First reply''\<rparr>,
          \<lparr>paused = False, src = Some ''Second reply''\<rparr>]"
  by (simp add: two_replies_def assistant_message_def interview_props_def agent_defs)

end
